theory Spec2Isabelle
  imports Main
begin

section \<open>Python text\<close>

text \<open>
  A Python \<^verbatim>\<open>str\<close> is a sequence of Unicode code points.  HOL's \<open>char\<close> has 256
  values, so a code point is either one of the first 256 (\<open>Ch\<close>) or a wider one:
  \<open>Wide n\<close> is the code point \<open>256 + n\<close>.  Every code point has exactly one
  representation.  \<open>asc\<close> embeds a HOL string literal.
\<close>

datatype uchar = Ch char | Wide nat

type_synonym pystr = "uchar list"

definition asc :: "string \<Rightarrow> pystr" where
  "asc s = map Ch s"

fun cp :: "uchar \<Rightarrow> nat" where
  "cp (Ch c) = of_char c"
| "cp (Wide n) = 256 + n"

definition uchr :: "nat \<Rightarrow> uchar" where
  "uchr n = (if n < 256 then Ch (char_of n) else Wide (n - 256))"

text \<open>The characters the source and the JSON grammar name.\<close>

definition dquote :: uchar where "dquote = Ch (CHR 0x22)"
definition bslash :: uchar where "bslash = Ch (CHR 0x5C)"
definition newline :: uchar where "newline = Ch (CHR 0x0A)"

text \<open>\<^verbatim>\<open>str.startswith\<close>, \<^verbatim>\<open>str.removeprefix\<close> and \<^verbatim>\<open>str.strip()\<close>.\<close>

definition startswith :: "pystr \<Rightarrow> pystr \<Rightarrow> bool" where
  "startswith s p = (take (length p) s = p)"

definition removeprefix :: "pystr \<Rightarrow> pystr \<Rightarrow> pystr" where
  "removeprefix s p = (if startswith s p then drop (length p) s else s)"

text \<open>The code points for which \<^verbatim>\<open>str.isspace\<close> holds; \<^verbatim>\<open>strip()\<close> removes them
  from both ends.\<close>

definition isspace :: "uchar \<Rightarrow> bool" where
  "isspace x = (let n = cp x in
     (9 \<le> n \<and> n \<le> 13) \<or> (28 \<le> n \<and> n \<le> 32) \<or> n = 0x85 \<or> n = 0xA0 \<or> n = 0x1680 \<or>
     (0x2000 \<le> n \<and> n \<le> 0x200A) \<or> n = 0x2028 \<or> n = 0x2029 \<or> n = 0x202F \<or>
     n = 0x205F \<or> n = 0x3000)"

definition strip :: "pystr \<Rightarrow> pystr" where
  "strip s = rev (dropWhile isspace (rev (dropWhile isspace s)))"

section \<open>Python values and exceptions\<close>

text \<open>
  The values \<^verbatim>\<open>json.loads\<close> can return.  A dict is an association list in insertion
  order with distinct keys.  A float is kept as the decimal it was read from:
  \<open>PFloat neg m e\<close> is the float nearest to \<open>(-1)^neg * m * 10^e\<close>.
\<close>

datatype pyval =
    PNone
  | PBool bool
  | PInt int
  | PFloat bool nat int
  | PNaN
  | PInf bool
  | PStr pystr
  | PList "pyval list"
  | PDict "(pystr \<times> pyval) list"

datatype py_error =
    JSONDecodeError
  | KeyError
  | IndexError
  | TypeError
  | AttributeError
  | HTTPStatusError nat
  | TransportError
  | UnicodeEncodeError
  | SystemExit pystr

definition sum_bind :: "'e + 'a \<Rightarrow> ('a \<Rightarrow> 'e + 'b) \<Rightarrow> 'e + 'b" where
  "sum_bind r f = (case r of Inl e \<Rightarrow> Inl e | Inr v \<Rightarrow> f v)"

text \<open>
  Truth value of an object, as \<^verbatim>\<open>if content:\<close> tests it.  A float is false when it
  is zero: the decimal \<open>m * 10^e\<close> is read as zero when \<open>m = 0\<close> or when it is at most
  \<open>2^-1075\<close>, half the least positive double.
\<close>

definition float_is_zero :: "nat \<Rightarrow> int \<Rightarrow> bool" where
  "float_is_zero m e = (m = 0 \<or> (e < 0 \<and> m * 2 ^ 1075 \<le> 10 ^ nat (- e)))"

fun truthy :: "pyval \<Rightarrow> bool" where
  "truthy PNone = False"
| "truthy (PBool b) = b"
| "truthy (PInt i) = (i \<noteq> 0)"
| "truthy (PFloat neg m e) = (\<not> float_is_zero m e)"
| "truthy PNaN = True"
| "truthy (PInf neg) = True"
| "truthy (PStr s) = (s \<noteq> [])"
| "truthy (PList xs) = (xs \<noteq> [])"
| "truthy (PDict kvs) = (kvs \<noteq> [])"

text \<open>\<^verbatim>\<open>obj[key]\<close> with a string key, \<^verbatim>\<open>obj[0]\<close>, and \<^verbatim>\<open>obj.get(key)\<close>.  The keys of a
  dict read from JSON are strings, so the key \<^verbatim>\<open>0\<close> is never found in one.\<close>

fun getitem_str :: "pyval \<Rightarrow> pystr \<Rightarrow> py_error + pyval" where
  "getitem_str (PDict kvs) k = (case map_of kvs k of None \<Rightarrow> Inl KeyError | Some v \<Rightarrow> Inr v)"
| "getitem_str v k = Inl TypeError"

fun getitem_0 :: "pyval \<Rightarrow> py_error + pyval" where
  "getitem_0 (PList []) = Inl IndexError"
| "getitem_0 (PList (x # xs)) = Inr x"
| "getitem_0 (PStr []) = Inl IndexError"
| "getitem_0 (PStr (c # cs)) = Inr (PStr [c])"
| "getitem_0 (PDict kvs) = Inl KeyError"
| "getitem_0 v = Inl TypeError"

fun get_method :: "pyval \<Rightarrow> pystr \<Rightarrow> py_error + pyval" where
  "get_method (PDict kvs) k = Inr (case map_of kvs k of None \<Rightarrow> PNone | Some v \<Rightarrow> v)"
| "get_method v k = Inl AttributeError"

section \<open>Reading JSON: \<^verbatim>\<open>json.loads\<close>\<close>

text \<open>
  The reader follows the scanner of Python's \<^verbatim>\<open>json\<close> module: the JSON grammar with
  the four JSON white-space characters, strings in strict mode (no raw control
  character), the three extra number names \<^verbatim>\<open>NaN\<close>, \<^verbatim>\<open>Infinity\<close>, \<^verbatim>\<open>-Infinity\<close>, and
  a repeated key keeping its first position and its last value.  The interpreter's
  resource limits (recursion depth, digits of an integer) are not part of it.
\<close>

definition is_json_ws :: "uchar \<Rightarrow> bool" where
  "is_json_ws x = (x = Ch CHR '' '' \<or> x = Ch (CHR 0x09) \<or> x = Ch (CHR 0x0A) \<or> x = Ch (CHR 0x0D))"

definition skip_ws :: "pystr \<Rightarrow> pystr" where
  "skip_ws s = dropWhile is_json_ws s"

definition hexval :: "uchar \<Rightarrow> nat option" where
  "hexval x = (let n = cp x in
     if 48 \<le> n \<and> n \<le> 57 then Some (n - 48)
     else if 97 \<le> n \<and> n \<le> 102 then Some (n - 87)
     else if 65 \<le> n \<and> n \<le> 70 then Some (n - 55)
     else None)"

definition hex4 :: "pystr \<Rightarrow> nat option" where
  "hex4 xs = (case xs of
      [a, b, c, d] \<Rightarrow>
        (case hexval a of None \<Rightarrow> None | Some p \<Rightarrow>
         case hexval b of None \<Rightarrow> None | Some q \<Rightarrow>
         case hexval c of None \<Rightarrow> None | Some r \<Rightarrow>
         case hexval d of None \<Rightarrow> None | Some t \<Rightarrow> Some (((p * 16 + q) * 16 + r) * 16 + t))
    | _ \<Rightarrow> None)"

text \<open>The character after a backslash other than \<^verbatim>\<open>u\<close>.\<close>

definition unescape :: "uchar \<Rightarrow> uchar option" where
  "unescape e =
     (if e = dquote then Some dquote
      else if e = bslash then Some bslash
      else if e = Ch CHR ''/'' then Some (Ch CHR ''/'')
      else if e = Ch CHR ''b'' then Some (Ch (CHR 0x08))
      else if e = Ch CHR ''f'' then Some (Ch (CHR 0x0C))
      else if e = Ch CHR ''n'' then Some (Ch (CHR 0x0A))
      else if e = Ch CHR ''r'' then Some (Ch (CHR 0x0D))
      else if e = Ch CHR ''t'' then Some (Ch (CHR 0x09))
      else None)"

definition is_high_surrogate :: "nat \<Rightarrow> bool" where
  "is_high_surrogate n = (0xD800 \<le> n \<and> n \<le> 0xDBFF)"

definition is_low_surrogate :: "nat \<Rightarrow> bool" where
  "is_low_surrogate n = (0xDC00 \<le> n \<and> n \<le> 0xDFFF)"

definition join_surrogates :: "nat \<Rightarrow> nat \<Rightarrow> nat" where
  "join_surrogates hi lo = 0x10000 + ((hi - 0xD800) * 1024 + (lo - 0xDC00))"

definition cons_result :: "uchar \<Rightarrow> (pystr \<times> pystr) option \<Rightarrow> (pystr \<times> pystr) option" where
  "cons_result c r = (case r of None \<Rightarrow> None | Some (s, rest) \<Rightarrow> Some (c # s, rest))"

text \<open>
  \<open>scanstring\<close> starts after the opening quote and returns the decoded string and
  the text after the closing quote.  A \<^verbatim>\<open>\uXXXX\<close> escape of a high surrogate that is
  followed by a \<^verbatim>\<open>\uXXXX\<close> escape of a low surrogate is read as one code point.
\<close>

fun scanstring :: "pystr \<Rightarrow> (pystr \<times> pystr) option" where
  "scanstring [] = None"
| "scanstring (x # xs) =
     (if x = dquote then Some ([], xs)
      else if x = bslash then
        (case xs of
           [] \<Rightarrow> None
         | e # ys \<Rightarrow>
             if e = Ch CHR ''u'' then
               (case hex4 (take 4 ys) of
                  None \<Rightarrow> None
                | Some hi \<Rightarrow>
                    if is_high_surrogate hi \<and> take 2 (drop 4 ys) = [bslash, Ch CHR ''u''] then
                      (case hex4 (take 4 (drop 6 ys)) of
                         None \<Rightarrow> None
                       | Some lo \<Rightarrow>
                           if is_low_surrogate lo
                           then cons_result (uchr (join_surrogates hi lo)) (scanstring (drop 10 ys))
                           else cons_result (uchr hi) (scanstring (drop 4 ys)))
                    else cons_result (uchr hi) (scanstring (drop 4 ys)))
             else
               (case unescape e of
                  None \<Rightarrow> None
                | Some c \<Rightarrow> cons_result c (scanstring ys)))
      else if cp x < 32 then None
      else cons_result x (scanstring xs))"

text \<open>Numbers: \<^verbatim>\<open>-?(0|[1-9][0-9]*)(\.[0-9]+)?([eE][-+]?[0-9]+)?\<close>; an integer when there
  is neither fraction nor exponent.\<close>

definition is_digit :: "uchar \<Rightarrow> bool" where
  "is_digit x = (48 \<le> cp x \<and> cp x \<le> 57)"

definition digits_val :: "pystr \<Rightarrow> nat" where
  "digits_val ds = foldl (\<lambda>a x. 10 * a + (cp x - 48)) 0 ds"

definition scan_int_part :: "pystr \<Rightarrow> (pystr \<times> pystr) option" where
  "scan_int_part s = (case s of
      [] \<Rightarrow> None
    | x # r \<Rightarrow>
        if x = Ch CHR ''0'' then Some ([x], r)
        else if is_digit x then Some (takeWhile is_digit s, dropWhile is_digit s)
        else None)"

definition scan_frac :: "pystr \<Rightarrow> pystr \<times> pystr" where
  "scan_frac s = (case s of
      [] \<Rightarrow> ([], s)
    | x # r \<Rightarrow>
        if x = Ch CHR ''.'' \<and> takeWhile is_digit r \<noteq> []
        then (takeWhile is_digit r, dropWhile is_digit r)
        else ([], s))"

definition scan_exp :: "pystr \<Rightarrow> int option \<times> pystr" where
  "scan_exp s = (case s of
      [] \<Rightarrow> (None, s)
    | x # r \<Rightarrow>
        if x = Ch CHR ''e'' \<or> x = Ch CHR ''E'' then
          (let neg = (r \<noteq> [] \<and> hd r = Ch CHR ''-'');
               r' = (if r \<noteq> [] \<and> (hd r = Ch CHR ''-'' \<or> hd r = Ch CHR ''+'') then tl r else r);
               ds = takeWhile is_digit r'
           in if ds = [] then (None, s)
              else (Some (if neg then - int (digits_val ds) else int (digits_val ds)),
                    dropWhile is_digit r'))
        else (None, s))"

definition scan_number :: "pystr \<Rightarrow> (pyval \<times> pystr) option" where
  "scan_number s =
     (let neg = (s \<noteq> [] \<and> hd s = Ch CHR ''-'');
          s1 = (if neg then tl s else s)
      in case scan_int_part s1 of
           None \<Rightarrow> None
         | Some (ip, s2) \<Rightarrow>
             (let (fd, s3) = scan_frac s2;
                  (ex, s4) = scan_exp s3
              in if fd = [] \<and> ex = None
                 then Some (PInt (if neg then - int (digits_val ip) else int (digits_val ip)), s4)
                 else Some (PFloat neg (digits_val (ip @ fd))
                              ((case ex of None \<Rightarrow> 0 | Some e \<Rightarrow> e) - int (length fd)), s4)))"

text \<open>\<^verbatim>\<open>dict[k] = v\<close>: a key already there keeps its place and takes the new value.\<close>

fun dict_set :: "(pystr \<times> 'v) list \<Rightarrow> pystr \<Rightarrow> 'v \<Rightarrow> (pystr \<times> 'v) list" where
  "dict_set [] k v = [(k, v)]"
| "dict_set ((k', v') # kvs) k v =
     (if k' = k then (k, v) # kvs else (k', v') # dict_set kvs k v)"

definition dict_update :: "(pystr \<times> 'v) list \<Rightarrow> (pystr \<times> 'v) list \<Rightarrow> (pystr \<times> 'v) list" where
  "dict_update d pairs = foldl (\<lambda>d (k, v). dict_set d k v) d pairs"

definition mk_dict :: "(pystr \<times> 'v) list \<Rightarrow> (pystr \<times> 'v) list" where
  "mk_dict pairs = dict_update [] pairs"

text \<open>
  The scanner proper.  Its first argument bounds the depth of the calls: a nested
  array or object costs two calls and holds at least its two brackets, a further
  element or member costs one call and holds at least a comma and a value, so the
  length of the text is enough for a text that is JSON (\<open>json_loads\<close> passes one
  more).  \<open>scan_array\<close> starts at the first element, \<open>scan_object\<close> at the quote
  that opens the first key.
\<close>

fun scan_once :: "nat \<Rightarrow> pystr \<Rightarrow> (pyval \<times> pystr) option"
  and scan_array :: "nat \<Rightarrow> pystr \<Rightarrow> (pyval list \<times> pystr) option"
  and scan_object :: "nat \<Rightarrow> pystr \<Rightarrow> ((pystr \<times> pyval) list \<times> pystr) option"
where
  "scan_once 0 s = None"
| "scan_once (Suc n) s =
     (case s of
        [] \<Rightarrow> None
      | x # xs \<Rightarrow>
          if x = dquote then
            (case scanstring xs of None \<Rightarrow> None | Some (str, r) \<Rightarrow> Some (PStr str, r))
          else if x = Ch CHR ''{'' then
            (if skip_ws xs \<noteq> [] \<and> hd (skip_ws xs) = Ch CHR ''}''
             then Some (PDict [], tl (skip_ws xs))
             else (case scan_object n (skip_ws xs) of
                     None \<Rightarrow> None
                   | Some (pairs, r) \<Rightarrow> Some (PDict (mk_dict pairs), r)))
          else if x = Ch CHR ''['' then
            (if skip_ws xs \<noteq> [] \<and> hd (skip_ws xs) = Ch CHR '']''
             then Some (PList [], tl (skip_ws xs))
             else (case scan_array n (skip_ws xs) of
                     None \<Rightarrow> None
                   | Some (vs, r) \<Rightarrow> Some (PList vs, r)))
          else if startswith s (asc ''null'') then Some (PNone, drop 4 s)
          else if startswith s (asc ''true'') then Some (PBool True, drop 4 s)
          else if startswith s (asc ''false'') then Some (PBool False, drop 5 s)
          else if startswith s (asc ''NaN'') then Some (PNaN, drop 3 s)
          else if startswith s (asc ''Infinity'') then Some (PInf False, drop 8 s)
          else if startswith s (asc ''-Infinity'') then Some (PInf True, drop 9 s)
          else scan_number s)"
| "scan_array 0 s = None"
| "scan_array (Suc n) s =
     (case scan_once n s of
        None \<Rightarrow> None
      | Some (v, r) \<Rightarrow>
          (case skip_ws r of
             [] \<Rightarrow> None
           | c # r' \<Rightarrow>
               if c = Ch CHR '']'' then Some ([v], r')
               else if c = Ch CHR '','' then
                 (case scan_array n (skip_ws r') of
                    None \<Rightarrow> None
                  | Some (vs, r'') \<Rightarrow> Some (v # vs, r''))
               else None))"
| "scan_object 0 s = None"
| "scan_object (Suc n) s =
     (case s of
        [] \<Rightarrow> None
      | q # s1 \<Rightarrow>
          if q \<noteq> dquote then None
          else
            (case scanstring s1 of
               None \<Rightarrow> None
             | Some (k, s2) \<Rightarrow>
                 (case skip_ws s2 of
                    [] \<Rightarrow> None
                  | colon # s3 \<Rightarrow>
                      if colon \<noteq> Ch CHR '':'' then None
                      else
                        (case scan_once n (skip_ws s3) of
                           None \<Rightarrow> None
                         | Some (v, s4) \<Rightarrow>
                             (case skip_ws s4 of
                                [] \<Rightarrow> None
                              | c # s5 \<Rightarrow>
                                  if c = Ch CHR ''}'' then Some ([(k, v)], s5)
                                  else if c = Ch CHR '','' then
                                    (case scan_object n (skip_ws s5) of
                                       None \<Rightarrow> None
                                     | Some (pairs, s6) \<Rightarrow> Some ((k, v) # pairs, s6))
                                  else None)))))"

text \<open>\<^verbatim>\<open>json.loads\<close> on a \<^verbatim>\<open>str\<close>: a leading byte-order mark is refused, white space
  around the one value is allowed, anything after it is an error.\<close>

definition json_loads :: "pystr \<Rightarrow> py_error + pyval" where
  "json_loads s =
     (if startswith s [Wide (0xFEFF - 256)] then Inl JSONDecodeError
      else case scan_once (Suc (length s)) (skip_ws s) of
             None \<Rightarrow> Inl JSONDecodeError
           | Some (v, r) \<Rightarrow> if skip_ws r = [] then Inr v else Inl JSONDecodeError)"

section \<open>Writing JSON: \<^verbatim>\<open>json.dumps\<close>\<close>

text \<open>
  \<^verbatim>\<open>json.dumps\<close> with its defaults (\<^verbatim>\<open>ensure_ascii\<close>, separators \<^verbatim>\<open>", "\<close> and \<^verbatim>\<open>": "\<close>), for
  the one shape the program passes: a dict whose keys and values are strings.  A
  character from space to tilde other than the quote and the backslash is written
  as it is; the others are escaped, a code point above \<^verbatim>\<open>0xFFFF\<close> as a surrogate pair.
\<close>

definition hexdigit :: "nat \<Rightarrow> uchar" where
  "hexdigit d = (if d < 10 then uchr (48 + d) else uchr (87 + d))"

definition to_hex4 :: "nat \<Rightarrow> pystr" where
  "to_hex4 n = [hexdigit (n div 4096 mod 16), hexdigit (n div 256 mod 16),
                hexdigit (n div 16 mod 16), hexdigit (n mod 16)]"

definition escape_char :: "uchar \<Rightarrow> pystr" where
  "escape_char x = (let n = cp x in
     if x = dquote then [bslash, dquote]
     else if x = bslash then [bslash, bslash]
     else if 32 \<le> n \<and> n \<le> 126 then [x]
     else if n = 8 then [bslash, Ch CHR ''b'']
     else if n = 12 then [bslash, Ch CHR ''f'']
     else if n = 10 then [bslash, Ch CHR ''n'']
     else if n = 13 then [bslash, Ch CHR ''r'']
     else if n = 9 then [bslash, Ch CHR ''t'']
     else if n < 0x10000 then [bslash, Ch CHR ''u''] @ to_hex4 n
     else [bslash, Ch CHR ''u''] @ to_hex4 (0xD800 + (n - 0x10000) div 1024) @
          [bslash, Ch CHR ''u''] @ to_hex4 (0xDC00 + n mod 1024))"

definition dumps_str :: "pystr \<Rightarrow> pystr" where
  "dumps_str s = dquote # concat (map escape_char s) @ [dquote]"

fun dumps_items :: "(pystr \<times> pystr) list \<Rightarrow> pystr" where
  "dumps_items [] = []"
| "dumps_items [(k, v)] = dumps_str k @ asc '': '' @ dumps_str v"
| "dumps_items ((k, v) # kvs) = dumps_str k @ asc '': '' @ dumps_str v @ asc '', '' @ dumps_items kvs"

definition json_dumps :: "(pystr \<times> pystr) list \<Rightarrow> pystr" where
  "json_dumps d = Ch CHR ''{'' # dumps_items d @ [Ch CHR ''}'']"

section \<open>The program\<close>

text \<open>
  What the program does to the world is a trace of events, in order: a call of
  \<^verbatim>\<open>print\<close> (the objects, \<^verbatim>\<open>end\<close>, \<^verbatim>\<open>flush\<close>), a request handed to httpx, a line
  taken from \<^verbatim>\<open>response.iter_lines()\<close>.  The network is a function from the request
  to what httpx gives back: an exception or a response.  Of a response the program
  uses the status, the body (\<^verbatim>\<open>response.json()\<close>) and the lines of the body
  (\<^verbatim>\<open>response.iter_lines()\<close>).
\<close>

record request =
  req_method :: pystr
  req_url :: pystr
  req_headers :: "(pystr \<times> pystr) list"
  req_json :: pyval
  req_timeout :: nat
  req_streamed :: bool

record response =
  resp_status :: nat
  resp_text :: pystr
  resp_lines :: "pystr list"

datatype event =
    Print "pyval list" pystr bool
  | Sent request
  | ReadLine pystr

type_synonym network = "request \<Rightarrow> py_error + response"

definition always :: "'b \<Rightarrow> 'a \<Rightarrow> 'b" where
  "always r req = r"

definition LLAMA_STACK_URL :: pystr where
  "LLAMA_STACK_URL = asc ''http://localhost:8321''"

definition provider_data_header :: "pystr \<Rightarrow> (pystr \<times> pystr) list" where
  "provider_data_header api_key =
     mk_dict [(asc ''X-LlamaStack-Provider-Data'',
               json_dumps (mk_dict [(asc ''passthrough_api_key'', api_key),
                                    (asc ''passthrough_url'', asc ''https://api.openai.com'')]))]"

text \<open>\<^verbatim>\<open>response.raise_for_status()\<close>: every status outside 200..299 raises.\<close>

definition raise_for_status :: "response \<Rightarrow> py_error + unit" where
  "raise_for_status r =
     (if 200 \<le> resp_status r \<and> resp_status r \<le> 299 then Inr ()
      else Inl (HTTPStatusError (resp_status r)))"

definition chat_request :: "pystr \<Rightarrow> request" where
  "chat_request api_key =
     \<lparr> req_method = asc ''POST'',
       req_url = LLAMA_STACK_URL @ asc ''/v1/chat/completions'',
       req_headers = dict_update (mk_dict [(asc ''Content-Type'', asc ''application/json'')])
                       (provider_data_header api_key),
       req_json = PDict (mk_dict
         [(asc ''model'', PStr (asc ''openai/gpt-4o'')),
          (asc ''messages'', PList [PDict (mk_dict
             [(asc ''role'', PStr (asc ''user'')),
              (asc ''content'', PStr (asc ''Say hello in three languages. Be brief.''))])])]),
       req_timeout = 30,
       req_streamed = False \<rparr>"

text \<open>
  \<^verbatim>\<open>print\<close> hands \<^verbatim>\<open>str\<close> of its object to \<^verbatim>\<open>sys.stdout\<close>, a text stream that encodes what
  it is given; the stream is taken to be UTF-8 with the strict error handler, what
  Python gives standard output by default.  UTF-8 encodes every code point but the
  surrogates \<^verbatim>\<open>U+D800\<close> to \<^verbatim>\<open>U+DFFF\<close>: of a string that holds one nothing is written and
  \<^verbatim>\<open>UnicodeEncodeError\<close> is raised.  Only a string object can hold one: \<^verbatim>\<open>str\<close> of a
  number, of \<^verbatim>\<open>None\<close> and of a truth value is ASCII, and \<^verbatim>\<open>str\<close> of a list or of a dict
  writes the strings inside by \<^verbatim>\<open>repr\<close>, which escapes surrogates.  The banners and
  the newline of \<^verbatim>\<open>print()\<close> are ASCII.
\<close>

definition encodable :: "pystr \<Rightarrow> bool" where
  "encodable s = list_all (\<lambda>c. \<not> is_high_surrogate (cp c) \<and> \<not> is_low_surrogate (cp c)) s"

fun printable :: "pyval \<Rightarrow> bool" where
  "printable (PStr s) = encodable s"
| "printable v = True"

definition regular_banner :: event where
  "regular_banner = Print [PStr (asc ''=== Regular ==='')] [newline] False"

text \<open>\<^verbatim>\<open>data["choices"][0]["message"]["content"]\<close>, which line 50 prints after the banner;
  when it cannot be encoded the banner is the only output of the call.\<close>

definition message_content :: "pyval \<Rightarrow> py_error + pyval" where
  "message_content data =
     sum_bind (sum_bind (sum_bind (getitem_str data (asc ''choices'')) getitem_0)
                 (\<lambda>c. getitem_str c (asc ''message'')))
       (\<lambda>m. getitem_str m (asc ''content''))"

definition chat :: "network \<Rightarrow> pystr \<Rightarrow> event list \<times> (py_error + unit)" where
  "chat net api_key =
     (let req = chat_request api_key in
      case net req of
        Inl e \<Rightarrow> ([Sent req], Inl e)
      | Inr response \<Rightarrow>
          (case raise_for_status response of
             Inl e \<Rightarrow> ([Sent req], Inl e)
           | Inr _ \<Rightarrow>
               (case json_loads (resp_text response) of
                  Inl e \<Rightarrow> ([Sent req], Inl e)
                | Inr data \<Rightarrow>
                    (case message_content data of
                       Inl e \<Rightarrow> ([Sent req, regular_banner], Inl e)
                     | Inr content \<Rightarrow>
                         if printable content then
                           ([Sent req, regular_banner, Print [content] [newline] False], Inr ())
                         else ([Sent req, regular_banner], Inl UnicodeEncodeError)))))"

text \<open>The body of the \<^verbatim>\<open>for\<close> loop of \<^verbatim>\<open>chat_streaming\<close>, on one line.  The \<^verbatim>\<open>print\<close> of
  line 79 raises when the content cannot be encoded, and then writes nothing.\<close>

text \<open>\<^verbatim>\<open>chunk["choices"][0]["delta"]\<close>.\<close>

definition chunk_delta :: "pyval \<Rightarrow> py_error + pyval" where
  "chunk_delta chunk =
     sum_bind (sum_bind (getitem_str chunk (asc ''choices'')) getitem_0)
       (\<lambda>c. getitem_str c (asc ''delta''))"

datatype step = Continue "event list" | Break | Raise py_error

definition handle_line :: "pystr \<Rightarrow> step" where
  "handle_line line =
     (if \<not> startswith line (asc ''data: '') then Continue []
      else
        (let payload = removeprefix line (asc ''data: '') in
         if strip payload = asc ''[DONE]'' then Break
         else
           (case json_loads payload of
              Inl e \<Rightarrow> Raise e
            | Inr chunk \<Rightarrow>
                (case sum_bind (chunk_delta chunk) (\<lambda>delta. get_method delta (asc ''content'')) of
                   Inl e \<Rightarrow> Raise e
                 | Inr content \<Rightarrow>
                     if truthy content then
                       (if printable content then Continue [Print [content] [] True]
                        else Raise UnicodeEncodeError)
                     else Continue []))))"

text \<open>The loop over \<^verbatim>\<open>response.iter_lines()\<close>: each line is taken when the loop comes
  to it, and the loop ends at the end of the lines, at a \<^verbatim>\<open>break\<close> or at an exception.\<close>

definition continues :: "pystr \<Rightarrow> bool" where
  "continues line = (case handle_line line of Continue evs \<Rightarrow> True | _ \<Rightarrow> False)"

datatype loop_end = Exhausted | Sentinel | Raised py_error

fun decode_loop :: "pystr list \<Rightarrow> event list \<times> loop_end" where
  "decode_loop [] = ([], Exhausted)"
| "decode_loop (line # rest) =
     (case handle_line line of
        Continue evs \<Rightarrow> (ReadLine line # evs @ fst (decode_loop rest), snd (decode_loop rest))
      | Break \<Rightarrow> ([ReadLine line], Sentinel)
      | Raise e \<Rightarrow> ([ReadLine line], Raised e))"

text \<open>Lines 70 to 80: the loop, then \<^verbatim>\<open>print()\<close> unless an exception left the loop.\<close>

definition consume_stream :: "pystr list \<Rightarrow> event list \<times> (py_error + unit)" where
  "consume_stream ls =
     (case snd (decode_loop ls) of
        Raised e \<Rightarrow> (fst (decode_loop ls), Inl e)
      | _ \<Rightarrow> (fst (decode_loop ls) @ [Print [] [newline] False], Inr ()))"

definition streaming_request :: "pystr \<Rightarrow> request" where
  "streaming_request api_key =
     \<lparr> req_method = asc ''POST'',
       req_url = LLAMA_STACK_URL @ asc ''/v1/chat/completions'',
       req_headers = dict_update (mk_dict [(asc ''Content-Type'', asc ''application/json'')])
                       (provider_data_header api_key),
       req_json = PDict (mk_dict
         [(asc ''model'', PStr (asc ''openai/gpt-4o'')),
          (asc ''stream'', PBool True),
          (asc ''messages'', PList [PDict (mk_dict
             [(asc ''role'', PStr (asc ''user'')),
              (asc ''content'', PStr (asc ''Count from 1 to 5.''))])])]),
       req_timeout = 30,
       req_streamed = True \<rparr>"

definition streaming_banner :: event where
  "streaming_banner = Print [PStr (newline # asc ''=== Streaming ==='')] [newline] False"

definition chat_streaming :: "network \<Rightarrow> pystr \<Rightarrow> event list \<times> (py_error + unit)" where
  "chat_streaming net api_key =
     (let req = streaming_request api_key in
      case net req of
        Inl e \<Rightarrow> ([streaming_banner, Sent req], Inl e)
      | Inr response \<Rightarrow>
          (case raise_for_status response of
             Inl e \<Rightarrow> ([streaming_banner, Sent req], Inl e)
           | Inr _ \<Rightarrow>
               (streaming_banner # Sent req # fst (consume_stream (resp_lines response)),
                snd (consume_stream (resp_lines response)))))"

text \<open>\<^verbatim>\<open>main\<close>: \<^verbatim>\<open>os.environ.get\<close> gives \<^verbatim>\<open>None\<close> or a string, and \<^verbatim>\<open>not api_key\<close> holds of
  \<^verbatim>\<open>None\<close> and of the empty string.\<close>

definition main :: "(pystr \<rightharpoonup> pystr) \<Rightarrow> network \<Rightarrow> event list \<times> (py_error + unit)" where
  "main environ net =
     (case environ (asc ''OPENAI_API_KEY'') of
        None \<Rightarrow> ([], Inl (SystemExit (asc ''Set OPENAI_API_KEY environment variable'')))
      | Some api_key \<Rightarrow>
          if api_key = [] then
            ([], Inl (SystemExit (asc ''Set OPENAI_API_KEY environment variable'')))
          else
            (case snd (chat net api_key) of
               Inl e \<Rightarrow> (fst (chat net api_key), Inl e)
             | Inr _ \<Rightarrow>
                 (fst (chat net api_key) @ fst (chat_streaming net api_key),
                  snd (chat_streaming net api_key))))"

text \<open>
  How the interpreter ends when \<^verbatim>\<open>main()\<close> returns or raises: status 0 on return;
  a \<^verbatim>\<open>SystemExit\<close> whose argument is a string writes the string and a newline on the
  error channel and ends with status 1; any other exception writes a traceback
  (\<open>tb\<close>, not modelled) and ends with status 1.
\<close>

definition exit_code :: "py_error + unit \<Rightarrow> nat" where
  "exit_code r = (case r of Inr _ \<Rightarrow> 0 | Inl e \<Rightarrow> 1)"

definition stderr_text :: "(py_error \<Rightarrow> pystr) \<Rightarrow> py_error + unit \<Rightarrow> pystr" where
  "stderr_text tb r =
     (case r of
        Inr _ \<Rightarrow> []
      | Inl (SystemExit msg) \<Rightarrow> msg @ [newline]
      | Inl e \<Rightarrow> tb e)"

text \<open>
  The text a trace puts on the output channel.  \<^verbatim>\<open>print\<close> writes \<^verbatim>\<open>str\<close> of each object,
  a space between two, then \<^verbatim>\<open>end\<close>.  \<^verbatim>\<open>str\<close> of a string is the string; of any other
  object it is \<open>rp\<close> of the object, a parameter.
\<close>

fun py_str :: "(pyval \<Rightarrow> pystr) \<Rightarrow> pyval \<Rightarrow> pystr" where
  "py_str rp (PStr s) = s"
| "py_str rp v = rp v"

fun join_space :: "pystr list \<Rightarrow> pystr" where
  "join_space [] = []"
| "join_space [s] = s"
| "join_space (s # ss) = s @ Ch CHR '' '' # join_space ss"

fun event_text :: "(pyval \<Rightarrow> pystr) \<Rightarrow> event \<Rightarrow> pystr" where
  "event_text rp (Print objs e fl) = join_space (map (py_str rp) objs) @ e"
| "event_text rp ev = []"

definition stdout_text :: "(pyval \<Rightarrow> pystr) \<Rightarrow> event list \<Rightarrow> pystr" where
  "stdout_text rp evs = concat (map (event_text rp) evs)"

text \<open>The text one line contributes to the output channel when the loop goes on
  after it.\<close>

definition fragment :: "(pyval \<Rightarrow> pystr) \<Rightarrow> pystr \<Rightarrow> pystr" where
  "fragment rp line =
     (case handle_line line of Continue evs \<Rightarrow> stdout_text rp evs | _ \<Rightarrow> [])"

fun is_print :: "event \<Rightarrow> bool" where
  "is_print (Print objs e fl) = True"
| "is_print ev = False"

fun is_read :: "event \<Rightarrow> bool" where
  "is_read (ReadLine l) = True"
| "is_read ev = False"

section \<open>Well-formed text\<close>

text \<open>
  The code points of a Python string lie below \<^verbatim>\<open>0x110000\<close> (\<open>unicode_text\<close>).  A string
  may hold surrogate code points; \<open>pair_free\<close> says that no high surrogate is
  immediately followed by a low surrogate, which holds of every string without
  surrogates.  \<open>esc\<close> is the escaped body of a JSON string, and \<open>no_join t\<close> says that
  \<open>t\<close> does not begin with the escape of a low surrogate.
\<close>

definition unicode_text :: "pystr \<Rightarrow> bool" where
  "unicode_text s = list_all (\<lambda>x. cp x < 0x110000) s"

fun pair_free :: "pystr \<Rightarrow> bool" where
  "pair_free [] = True"
| "pair_free [x] = True"
| "pair_free (x # y # ys) =
     (\<not> (is_high_surrogate (cp x) \<and> is_low_surrogate (cp y)) \<and> pair_free (y # ys))"

definition esc :: "pystr \<Rightarrow> pystr" where
  "esc s = concat (map escape_char s)"

definition no_join :: "pystr \<Rightarrow> bool" where
  "no_join t = (take 2 t = [bslash, Ch CHR ''u''] \<longrightarrow>
      (\<exists>lo. hex4 (take 4 (drop 2 t)) = Some lo \<and> \<not> is_low_surrogate lo))"

section \<open>Facts about the loop\<close>

lemma ascii_below_surrogates: "of_char c < (0xD800::nat)"
proof -
  have "(of_char c :: nat) mod 256 < 256" by simp
  then have "(of_char c :: nat) < 256" by (simp only: of_char_mod_256)
  then show ?thesis by (rule less_trans) simp
qed

lemma encodable_asc: "encodable (asc s)"
proof -
  have "\<not> is_high_surrogate (cp (Ch c)) \<and> \<not> is_low_surrogate (cp (Ch c))" for c
    using ascii_below_surrogates [of c]
    by (simp add: is_high_surrogate_def is_low_surrogate_def)
  then show ?thesis
    by (simp add: encodable_def asc_def list_all_iff)
qed

lemma decode_loop_append:
  "list_all continues pre \<Longrightarrow>
   decode_loop (pre @ rest) =
     (fst (decode_loop pre) @ fst (decode_loop rest), snd (decode_loop rest))"
  by (induction pre) (auto simp: continues_def split: step.splits)

lemma decode_loop_exhausted:
  "list_all continues pre \<Longrightarrow> snd (decode_loop pre) = Exhausted"
  by (induction pre) (auto simp: continues_def split: step.splits)

lemma handle_line_prints: "handle_line l = Continue evs \<Longrightarrow> list_all is_print evs"
  by (auto simp: handle_line_def Let_def split: if_splits sum.splits)

lemma decode_loop_events: "list_all (\<lambda>e. is_print e \<or> is_read e) (fst (decode_loop ls))"
proof (induction ls)
  case Nil
  then show ?case by simp
next
  case (Cons l ls)
  show ?case
  proof (cases "handle_line l")
    case (Continue evs)
    with handle_line_prints [OF Continue] Cons show ?thesis
      by (auto simp: list_all_iff)
  qed simp_all
qed

lemma consume_stream_events:
  "list_all (\<lambda>e. is_print e \<or> is_read e) (fst (consume_stream ls))"
  using decode_loop_events [of ls] by (auto simp: consume_stream_def split: loop_end.splits)

lemma consume_stream_no_sent: "Sent r \<notin> set (fst (consume_stream ls))"
  using consume_stream_events [of ls] by (auto simp: list_all_iff)

lemma prints_not_reads: "list_all is_print evs \<Longrightarrow> filter is_read evs = []"
proof (induction evs)
  case Nil
  then show ?case by simp
next
  case (Cons e evs)
  then show ?case by (cases e) simp_all
qed

lemma reads_continues:
  "list_all continues pre \<Longrightarrow> filter is_read (fst (decode_loop pre)) = map ReadLine pre"
proof (induction pre)
  case Nil
  then show ?case by simp
next
  case (Cons l pre)
  then obtain evs where h: "handle_line l = Continue evs"
    by (auto simp: continues_def split: step.splits)
  from Cons h prints_not_reads [OF handle_line_prints [OF h]] show ?case by simp
qed

lemma sentinel_break:
  assumes "startswith l (asc ''data: '')"
    and "strip (removeprefix l (asc ''data: '')) = asc ''[DONE]''"
  shows "handle_line l = Break"
  using assms by (simp add: handle_line_def)

lemma skip_line:
  assumes "\<not> startswith l (asc ''data: '')"
  shows "handle_line l = Continue []"
  using assms by (simp add: handle_line_def)

lemma skip_loop:
  assumes "handle_line l = Continue []"
  shows "filter is_print (fst (decode_loop (pre @ l # post))) =
           filter is_print (fst (decode_loop (pre @ post)))
       \<and> snd (decode_loop (pre @ l # post)) = snd (decode_loop (pre @ post))"
  using assms by (induction pre) (auto split: step.splits)

lemma stdout_text_prints: "stdout_text rp (filter is_print evs) = stdout_text rp evs"
proof (induction evs)
  case Nil
  then show ?case by simp
next
  case (Cons e evs)
  then show ?case by (cases e) (simp_all add: stdout_text_def)
qed

text \<open>Concrete lines used below.\<close>

lemma blank_line_not_data: "\<not> startswith [] (asc ''data: '')"
  by (simp add: startswith_def asc_def)

lemma comment_line_not_data: "\<not> startswith (asc '': ping'') (asc ''data: '')"
  by (simp add: startswith_def asc_def)

lemma done_line:
  "startswith (asc ''data: [DONE]'') (asc ''data: '')
   \<and> strip (removeprefix (asc ''data: [DONE]'') (asc ''data: '')) = asc ''[DONE]''"
  by (simp add: startswith_def removeprefix_def strip_def isspace_def asc_def)

section \<open>The streaming loop: skipped lines and the sentinel\<close>

text \<open>
  C7.  A line that does not start with \<^verbatim>\<open>data: \<close> is skipped: the loop body does
  nothing with it, whatever the line contains (it is not handed to the JSON reader,
  so a line that is not JSON raises nothing), and the stream with the line gives
  the same prints, the same text on the output channel and the same ending as the
  stream without it.
\<close>

theorem non_data_line_is_skipped:
  assumes "\<not> startswith l (asc ''data: '')"
  shows "handle_line l = Continue []
       \<and> filter is_print (fst (consume_stream (pre @ l # post))) =
           filter is_print (fst (consume_stream (pre @ post)))
       \<and> stdout_text rp (fst (consume_stream (pre @ l # post))) =
           stdout_text rp (fst (consume_stream (pre @ post)))
       \<and> snd (consume_stream (pre @ l # post)) = snd (consume_stream (pre @ post))"
proof -
  have h: "handle_line l = Continue []"
    using assms by (rule skip_line)
  note sl = skip_loop [OF h, of pre post]
  have p: "filter is_print (fst (consume_stream (pre @ l # post))) =
             filter is_print (fst (consume_stream (pre @ post)))"
    using sl by (simp add: consume_stream_def split: loop_end.splits)
  have r: "snd (consume_stream (pre @ l # post)) = snd (consume_stream (pre @ post))"
    using sl by (simp add: consume_stream_def split: loop_end.splits)
  have t: "stdout_text rp (fst (consume_stream (pre @ l # post))) =
             stdout_text rp (fst (consume_stream (pre @ post)))"
    using p stdout_text_prints [of rp "fst (consume_stream (pre @ l # post))"]
      stdout_text_prints [of rp "fst (consume_stream (pre @ post))"]
    by simp
  from h p t r show ?thesis by blast
qed

theorem non_data_line_is_skipped_witness:
  "\<not> startswith [] (asc ''data: '')
   \<and> handle_line [] = Continue []
   \<and> filter is_print (fst (consume_stream ([] @ [] # [asc ''data: [DONE]'']))) =
       filter is_print (fst (consume_stream ([] @ [asc ''data: [DONE]''])))
   \<and> snd (consume_stream ([] @ [] # [asc ''data: [DONE]''])) =
       snd (consume_stream ([] @ [asc ''data: [DONE]'']))"
  using blank_line_not_data
    non_data_line_is_skipped [OF blank_line_not_data, of "[]" "[asc ''data: [DONE]'']"]
  by blast

text \<open>
  C3.  When the loop comes to a data line whose payload, stripped of surrounding
  white space, is \<^verbatim>\<open>[DONE]\<close>, it breaks: the lines read are exactly the lines up to
  and including that one, the lines after it (\<open>post\<close>) are neither read nor decoded
  and have no influence, the closing \<^verbatim>\<open>print()\<close> runs and the call returns normally.
  The lines before the sentinel (\<open>pre\<close>) are lines at which the loop goes on.
\<close>

theorem sentinel_stops_processing:
  assumes "list_all continues pre"
    and "startswith l (asc ''data: '')"
    and "strip (removeprefix l (asc ''data: '')) = asc ''[DONE]''"
  shows "handle_line l = Break
       \<and> decode_loop (pre @ l # post) = (fst (decode_loop pre) @ [ReadLine l], Sentinel)
       \<and> consume_stream (pre @ l # post) =
           (fst (decode_loop pre) @ [ReadLine l, Print [] [newline] False], Inr ())
       \<and> filter is_read (fst (consume_stream (pre @ l # post))) = map ReadLine (pre @ [l])"
proof -
  have b: "handle_line l = Break"
    using assms(2,3) by (rule sentinel_break)
  have d: "decode_loop (pre @ l # post) = (fst (decode_loop pre) @ [ReadLine l], Sentinel)"
    using decode_loop_append [OF assms(1), of "l # post"] b by simp
  have c: "consume_stream (pre @ l # post) =
             (fst (decode_loop pre) @ [ReadLine l, Print [] [newline] False], Inr ())"
    by (simp add: consume_stream_def d)
  have r: "filter is_read (fst (consume_stream (pre @ l # post))) = map ReadLine (pre @ [l])"
    by (simp add: c reads_continues [OF assms(1)])
  from b d c r show ?thesis by blast
qed

theorem sentinel_stops_processing_witness:
  "list_all continues [asc '': ping'']
   \<and> startswith (asc ''data: [DONE]'') (asc ''data: '')
   \<and> strip (removeprefix (asc ''data: [DONE]'') (asc ''data: '')) = asc ''[DONE]''
   \<and> consume_stream ([asc '': ping''] @ asc ''data: [DONE]'' # [asc ''data: {'']) =
       (fst (decode_loop [asc '': ping'']) @ [ReadLine (asc ''data: [DONE]''), Print [] [newline] False],
        Inr ())
   \<and> filter is_read (fst (consume_stream ([asc '': ping''] @ asc ''data: [DONE]'' # [asc ''data: {'']))) =
       map ReadLine ([asc '': ping''] @ [asc ''data: [DONE]''])"
proof -
  have c: "list_all continues [asc '': ping'']"
    by (simp add: continues_def skip_line [OF comment_line_not_data])
  show ?thesis
    using c done_line
      sentinel_stops_processing [OF c conjunct1 [OF done_line] conjunct2 [OF done_line],
        of "[asc ''data: {'']"]
    by blast
qed

section \<open>Facts about data frames\<close>

lemmas json_eval = asc_def startswith_def removeprefix_def strip_def isspace_def skip_ws_def
  is_json_ws_def dquote_def bslash_def newline_def cons_result_def mk_dict_def
  dict_update_def json_loads_def is_digit_def scan_number_def scan_int_part_def unescape_def

lemma json_loads_error: "json_loads p = Inl e \<Longrightarrow> e = JSONDecodeError"
  by (auto simp: json_loads_def split: if_splits option.splits)

lemma chunk_delta_Inr:
  "chunk_delta chunk = Inr x \<longleftrightarrow>
   (\<exists>d c more. chunk = PDict d \<and> map_of d (asc ''choices'') = Some (PList (PDict c # more))
      \<and> map_of c (asc ''delta'') = Some x)"
proof
  assume h: "chunk_delta chunk = Inr x"
  then obtain d where d: "chunk = PDict d"
    by (cases chunk) (simp_all add: chunk_delta_def sum_bind_def)
  from h d obtain ch where ch: "map_of d (asc ''choices'') = Some ch"
    by (auto simp: chunk_delta_def sum_bind_def split: option.splits)
  from h d ch obtain c0 where c0: "getitem_0 ch = Inr c0" "getitem_str c0 (asc ''delta'') = Inr x"
    by (auto simp: chunk_delta_def sum_bind_def split: sum.splits)
  from c0(2) obtain c where c: "c0 = PDict c" "map_of c (asc ''delta'') = Some x"
    by (cases c0) (auto split: option.splits)
  from c0(1) c(1) obtain more where "ch = PList (PDict c # more)"
    by (cases ch rule: getitem_0.cases) auto
  with d ch c show "\<exists>d c more. chunk = PDict d \<and> map_of d (asc ''choices'') = Some (PList (PDict c # more))
      \<and> map_of c (asc ''delta'') = Some x" by blast
next
  assume "\<exists>d c more. chunk = PDict d \<and> map_of d (asc ''choices'') = Some (PList (PDict c # more))
      \<and> map_of c (asc ''delta'') = Some x"
  then show "chunk_delta chunk = Inr x"
    by (auto simp: chunk_delta_def sum_bind_def)
qed

lemma handle_frame:
  assumes "startswith l (asc ''data: '')" "strip (removeprefix l (asc ''data: '')) \<noteq> asc ''[DONE]''"
  shows "handle_line l =
     (case json_loads (removeprefix l (asc ''data: '')) of Inl e \<Rightarrow> Raise e
      | Inr chunk \<Rightarrow> (case sum_bind (chunk_delta chunk) (\<lambda>delta. get_method delta (asc ''content'')) of
            Inl e \<Rightarrow> Raise e
          | Inr content \<Rightarrow>
              if truthy content then
                (if printable content then Continue [Print [content] [] True]
                 else Raise UnicodeEncodeError)
              else Continue []))"
  using assms by (simp add: handle_line_def)

lemma frame_content:
  assumes "startswith l (asc ''data: '')" "strip (removeprefix l (asc ''data: '')) \<noteq> asc ''[DONE]''"
    "json_loads (removeprefix l (asc ''data: '')) = Inr chunk"
    "chunk_delta chunk = Inr (PDict d)"
  shows "handle_line l = (case map_of d (asc ''content'') of None \<Rightarrow> Continue []
           | Some v \<Rightarrow>
               if truthy v then
                 (if printable v then Continue [Print [v] [] True] else Raise UnicodeEncodeError)
               else Continue [])"
  using assms by (simp add: handle_frame sum_bind_def split: option.splits)


lemma loop_raise:
  assumes "list_all continues pre" "handle_line l = Raise e"
  shows "consume_stream (pre @ l # post) = (fst (decode_loop pre) @ [ReadLine l], Inl e)"
  using decode_loop_append [OF assms(1), of "l # post"] assms(2) by (simp add: consume_stream_def)

lemma frame_silent:
  assumes "startswith l (asc ''data: '')" "strip (removeprefix l (asc ''data: '')) \<noteq> asc ''[DONE]''"
    "handle_line l = Continue []"
  shows "\<exists>d c more dd. json_loads (removeprefix l (asc ''data: '')) = Inr (PDict d)
     \<and> map_of d (asc ''choices'') = Some (PList (PDict c # more))
     \<and> map_of c (asc ''delta'') = Some (PDict dd)
     \<and> (case map_of dd (asc ''content'') of None \<Rightarrow> True | Some v \<Rightarrow> \<not> truthy v)"
proof -
  from assms obtain chunk where ch: "json_loads (removeprefix l (asc ''data: '')) = Inr chunk"
    by (auto simp: handle_frame split: sum.splits)
  from assms ch obtain delta where de: "chunk_delta chunk = Inr delta"
    by (auto simp: handle_frame sum_bind_def split: sum.splits)
  from assms ch de obtain dd where dd: "delta = PDict dd"
    by (cases delta) (auto simp: handle_frame sum_bind_def split: sum.splits if_splits)
  from assms ch de dd have t: "(case map_of dd (asc ''content'') of None \<Rightarrow> True | Some v \<Rightarrow> \<not> truthy v)"
    by (auto simp: handle_frame sum_bind_def split: sum.splits option.splits if_splits)
  from de dd obtain d c more where "chunk = PDict d" "map_of d (asc ''choices'') = Some (PList (PDict c # more))"
      "map_of c (asc ''delta'') = Some (PDict dd)"
    unfolding chunk_delta_Inr by blast
  with ch t show ?thesis by blast
qed

text \<open>The data frames used as examples below.\<close>

lemma frame_A:
  \<open>startswith (asc ''data: {"choices":[{"delta":{"content":"A"}}]}'') (asc ''data: '')
   \<and> strip (removeprefix (asc ''data: {"choices":[{"delta":{"content":"A"}}]}'') (asc ''data: ''))
       \<noteq> asc ''[DONE]''
   \<and> json_loads (removeprefix (asc ''data: {"choices":[{"delta":{"content":"A"}}]}'') (asc ''data: ''))
       = Inr (PDict [(asc ''choices'',
                PList [PDict [(asc ''delta'', PDict [(asc ''content'', PStr (asc ''A''))])]])])\<close>
  by (simp add: json_eval)

lemma frame_B:
  \<open>startswith (asc ''data: {"choices":[{"delta":{"content":"B"}}]}'') (asc ''data: '')
   \<and> strip (removeprefix (asc ''data: {"choices":[{"delta":{"content":"B"}}]}'') (asc ''data: ''))
       \<noteq> asc ''[DONE]''
   \<and> json_loads (removeprefix (asc ''data: {"choices":[{"delta":{"content":"B"}}]}'') (asc ''data: ''))
       = Inr (PDict [(asc ''choices'',
                PList [PDict [(asc ''delta'', PDict [(asc ''content'', PStr (asc ''B''))])]])])\<close>
  by (simp add: json_eval)

lemma frame_role:
  \<open>startswith (asc ''data: {"choices":[{"delta":{"role":"assistant"}}]}'') (asc ''data: '')
   \<and> strip (removeprefix (asc ''data: {"choices":[{"delta":{"role":"assistant"}}]}'') (asc ''data: ''))
       \<noteq> asc ''[DONE]''
   \<and> json_loads (removeprefix (asc ''data: {"choices":[{"delta":{"role":"assistant"}}]}'') (asc ''data: ''))
       = Inr (PDict [(asc ''choices'',
                PList [PDict [(asc ''delta'', PDict [(asc ''role'', PStr (asc ''assistant''))])]])])\<close>
  by (simp add: json_eval)

lemma frame_not_json:
  \<open>startswith (asc ''data: {'') (asc ''data: '')
   \<and> strip (removeprefix (asc ''data: {'') (asc ''data: '')) \<noteq> asc ''[DONE]''
   \<and> json_loads (removeprefix (asc ''data: {'') (asc ''data: '')) = Inl JSONDecodeError\<close>
  by (simp add: json_eval)

lemma frame_no_choices:
  \<open>startswith (asc ''data: {}'') (asc ''data: '')
   \<and> strip (removeprefix (asc ''data: {}'') (asc ''data: '')) \<noteq> asc ''[DONE]''
   \<and> json_loads (removeprefix (asc ''data: {}'') (asc ''data: '')) = Inr (PDict [])\<close>
  by (simp add: json_eval)

lemma frame_empty_choices:
  \<open>startswith (asc ''data: {"choices":[]}'') (asc ''data: '')
   \<and> strip (removeprefix (asc ''data: {"choices":[]}'') (asc ''data: '')) \<noteq> asc ''[DONE]''
   \<and> json_loads (removeprefix (asc ''data: {"choices":[]}'') (asc ''data: ''))
       = Inr (PDict [(asc ''choices'', PList [])])\<close>
  by (simp add: json_eval)

lemma frame_no_delta:
  \<open>startswith (asc ''data: {"choices":[{}]}'') (asc ''data: '')
   \<and> strip (removeprefix (asc ''data: {"choices":[{}]}'') (asc ''data: '')) \<noteq> asc ''[DONE]''
   \<and> json_loads (removeprefix (asc ''data: {"choices":[{}]}'') (asc ''data: ''))
       = Inr (PDict [(asc ''choices'', PList [PDict []])])\<close>
  by (simp add: json_eval)



lemma chunk_delta_example:
  "chunk_delta (PDict [(asc ''choices'', PList [PDict [(asc ''delta'', PDict dd)]])]) = Inr (PDict dd)"
  by (simp add: chunk_delta_def sum_bind_def)

section \<open>Facts about the two calls\<close>

lemma chat_sent: "Sent req \<in> set (fst (chat net k)) \<Longrightarrow> req = chat_request k"
  by (auto simp: chat_def Let_def regular_banner_def split: sum.splits if_splits)

lemma chat_streaming_sent:
  "Sent req \<in> set (fst (chat_streaming net k)) \<Longrightarrow> req = streaming_request k"
  by (auto simp: chat_streaming_def Let_def streaming_banner_def consume_stream_no_sent
      split: sum.splits)

lemma main_sent:
  assumes "Sent req \<in> set (fst (main environ net))"
  shows "\<exists>k. k \<noteq> [] \<and> environ (asc ''OPENAI_API_KEY'') = Some k
          \<and> (req = chat_request k \<or> req = streaming_request k)"
  using assms
  by (auto simp: main_def split: option.splits if_splits sum.splits
      dest: chat_sent chat_streaming_sent)

lemma request_headers:
  "req = chat_request k \<or> req = streaming_request k \<Longrightarrow>
   req_headers req =
     dict_update (mk_dict [(asc ''Content-Type'', asc ''application/json'')])
       (provider_data_header k)"
  by (auto simp: chat_request_def streaming_request_def)

lemma chat_error_status:
  "net (chat_request k) = Inr r \<Longrightarrow> \<not> (200 \<le> resp_status r \<and> resp_status r \<le> 299) \<Longrightarrow>
   chat net k = ([Sent (chat_request k)], Inl (HTTPStatusError (resp_status r)))"
  by (auto simp: chat_def raise_for_status_def)

lemma chat_streaming_error_status:
  "net (streaming_request k) = Inr r \<Longrightarrow> \<not> (200 \<le> resp_status r \<and> resp_status r \<le> 299) \<Longrightarrow>
   chat_streaming net k =
     ([streaming_banner, Sent (streaming_request k)], Inl (HTTPStatusError (resp_status r)))"
  by (auto simp: chat_streaming_def raise_for_status_def)

lemma streaming_banner_text:
  "stdout_text rp [streaming_banner, Sent req] = newline # asc ''=== Streaming ==='' @ [newline]"
  by (simp add: stdout_text_def streaming_banner_def)

lemma main_empty_credential:
  "environ (asc ''OPENAI_API_KEY'') = Some [] \<Longrightarrow>
   main environ net = ([], Inl (SystemExit (asc ''Set OPENAI_API_KEY environment variable'')))
   \<and> main environ net = main (environ(asc ''OPENAI_API_KEY'' := None)) net"
  by (simp add: main_def)

lemma main_no_network:
  "main [asc ''OPENAI_API_KEY'' \<mapsto> asc ''sk''] (always (Inl TransportError)) =
     ([Sent (chat_request (asc ''sk''))], Inl TransportError)"
  by (simp add: main_def chat_def always_def asc_def)

lemma header_of_empty_credential:
  \<open>provider_data_header [] =
     [(asc ''X-LlamaStack-Provider-Data'',
       asc ''{"passthrough_api_key": "", "passthrough_url": "https://api.openai.com"}'')]\<close>
  by (simp add: provider_data_header_def mk_dict_def dict_update_def json_dumps_def
      dumps_str_def asc_def dquote_def bslash_def escape_char_def)

section \<open>A response with an error status\<close>

text \<open>
  C2, as the program has it.  A response whose status is outside 200..299 (401 for
  one) makes either call fail with the HTTP status error that carries the status,
  before anything of the response is read.  The synchronous call has then written
  nothing.  The streaming call has written its banner line, which it prints before
  it sends the request, and nothing else.
\<close>

theorem error_status_fails_call:
  assumes "\<not> (200 \<le> resp_status r \<and> resp_status r \<le> 299)"
  shows "(net (chat_request k) = Inr r \<longrightarrow>
            chat net k = ([Sent (chat_request k)], Inl (HTTPStatusError (resp_status r)))
            \<and> stdout_text rp (fst (chat net k)) = [])
       \<and> (net (streaming_request k) = Inr r \<longrightarrow>
            chat_streaming net k =
              ([streaming_banner, Sent (streaming_request k)],
               Inl (HTTPStatusError (resp_status r)))
            \<and> stdout_text rp (fst (chat_streaming net k)) =
                newline # asc ''=== Streaming ==='' @ [newline])"
  using assms chat_error_status [of net k r] chat_streaming_error_status [of net k r]
  by (auto simp: stdout_text_def streaming_banner_def)

theorem error_status_fails_call_witness:
  "\<not> (200 \<le> resp_status \<lparr>resp_status = 401, resp_text = [], resp_lines = []\<rparr>
        \<and> resp_status \<lparr>resp_status = 401, resp_text = [], resp_lines = []\<rparr> \<le> 299)
   \<and> always (Inr \<lparr>resp_status = 401, resp_text = [], resp_lines = []\<rparr>)
       (chat_request (asc ''sk'')) = Inr \<lparr>resp_status = 401, resp_text = [], resp_lines = []\<rparr>
   \<and> chat (always (Inr \<lparr>resp_status = 401, resp_text = [], resp_lines = []\<rparr>)) (asc ''sk'') =
       ([Sent (chat_request (asc ''sk''))], Inl (HTTPStatusError 401))
   \<and> chat_streaming (always (Inr \<lparr>resp_status = 401, resp_text = [], resp_lines = []\<rparr>))
       (asc ''sk'') =
       ([streaming_banner, Sent (streaming_request (asc ''sk''))], Inl (HTTPStatusError 401))"
proof -
  have bad: "\<not> (200 \<le> resp_status \<lparr>resp_status = 401, resp_text = [], resp_lines = []\<rparr>
        \<and> resp_status \<lparr>resp_status = 401, resp_text = [], resp_lines = []\<rparr> \<le> 299)"
    by simp
  show ?thesis
    using error_status_fails_call [OF bad,
        of "always (Inr \<lparr>resp_status = 401, resp_text = [], resp_lines = []\<rparr>)" "asc ''sk''"]
    by (simp add: always_def)
qed

text \<open>
  C2 as stated does not hold of the streaming call: with a 401 response the call
  fails with the status error, and its banner is on the output channel.
\<close>

theorem streaming_error_status_counterexample:
  "filter is_print
     (fst (chat_streaming (always (Inr \<lparr>resp_status = 401, resp_text = [], resp_lines = []\<rparr>))
        (asc ''sk''))) \<noteq> []
   \<and> snd (chat_streaming (always (Inr \<lparr>resp_status = 401, resp_text = [], resp_lines = []\<rparr>))
        (asc ''sk'')) = Inl (HTTPStatusError 401)"
  by (simp add: chat_streaming_def always_def raise_for_status_def streaming_banner_def)

section \<open>The two example responses\<close>

lemma stdout_text_append: "stdout_text rp (xs @ ys) = stdout_text rp xs @ stdout_text rp ys"
  by (simp add: stdout_text_def)

lemma stdout_text_read: "stdout_text rp (ReadLine l # evs) = stdout_text rp evs"
  by (simp add: stdout_text_def)

lemma loop_text:
  "list_all continues ls \<Longrightarrow> stdout_text rp (fst (decode_loop ls)) = concat (map (fragment rp) ls)"
proof (induction ls)
  case Nil then show ?case by (simp add: stdout_text_def)
next
  case (Cons l ls)
  then obtain evs where h: "handle_line l = Continue evs"
    by (auto simp: continues_def split: step.splits)
  with Cons show ?case
    by (simp add: stdout_text_read stdout_text_append fragment_def)
qed

lemma newline_text: "stdout_text rp [Print [] [newline] False] = [newline]"
  by (simp add: stdout_text_def)

lemma exhausted_end:
  assumes "list_all continues ls"
  shows "consume_stream ls = (fst (decode_loop ls) @ [Print [] [newline] False], Inr ())
     \<and> stdout_text rp (fst (consume_stream ls)) = concat (map (fragment rp) ls) @ [newline]"
  using decode_loop_exhausted [OF assms] loop_text [OF assms, of rp]
  by (simp add: consume_stream_def stdout_text_append newline_text)

lemma sentinel_end:
  assumes "list_all continues pre" "handle_line l = Break"
  shows "consume_stream (pre @ l # post) = (fst (decode_loop pre) @ [ReadLine l, Print [] [newline] False], Inr ())
     \<and> stdout_text rp (fst (consume_stream (pre @ l # post))) = concat (map (fragment rp) pre) @ [newline]"
  using decode_loop_append [OF assms(1), of "l # post"] assms(2) loop_text [OF assms(1), of rp]
  by (simp add: consume_stream_def stdout_text_append newline_text stdout_text_read)

lemma handle_frame_A: \<open>handle_line (asc ''data: {"choices":[{"delta":{"content":"A"}}]}'') = Continue [Print [PStr (asc ''A'')] [] True]\<close>
  using frame_content [OF conjunct1 [OF frame_A] conjunct1 [OF conjunct2 [OF frame_A]]
          conjunct2 [OF conjunct2 [OF frame_A]] chunk_delta_example]
  by (simp add: asc_def encodable_def is_high_surrogate_def is_low_surrogate_def)

lemma handle_frame_B: \<open>handle_line (asc ''data: {"choices":[{"delta":{"content":"B"}}]}'') = Continue [Print [PStr (asc ''B'')] [] True]\<close>
  using frame_content [OF conjunct1 [OF frame_B] conjunct1 [OF conjunct2 [OF frame_B]]
          conjunct2 [OF conjunct2 [OF frame_B]] chunk_delta_example]
  by (simp add: asc_def encodable_def is_high_surrogate_def is_low_surrogate_def)


lemma handle_done_line: "handle_line (asc ''data: [DONE]'') = Break"
  using sentinel_break [OF conjunct1 [OF done_line] conjunct2 [OF done_line]] .

lemma stream_AB:
  \<open>consume_stream [asc ''data: {"choices":[{"delta":{"content":"A"}}]}'',
                   asc ''data: {"choices":[{"delta":{"content":"B"}}]}'',
                   asc ''data: [DONE]''] =
     ([ReadLine (asc ''data: {"choices":[{"delta":{"content":"A"}}]}''), Print [PStr (asc ''A'')] [] True,
       ReadLine (asc ''data: {"choices":[{"delta":{"content":"B"}}]}''), Print [PStr (asc ''B'')] [] True,
       ReadLine (asc ''data: [DONE]''), Print [] [newline] False], Inr ())\<close>
  by (simp add: consume_stream_def handle_frame_A handle_frame_B handle_done_line)

lemma stream_AB_text:
  \<open>stdout_text rp (fst (consume_stream [asc ''data: {"choices":[{"delta":{"content":"A"}}]}'',
                   asc ''data: {"choices":[{"delta":{"content":"B"}}]}'',
                   asc ''data: [DONE]''])) = asc ''AB'' @ [newline]\<close>
  by (simp only: stream_AB) (simp add: stdout_text_def asc_def)

lemma chat_streaming_ok:
  "net (streaming_request k) = Inr r \<Longrightarrow> raise_for_status r = Inr () \<Longrightarrow>
   chat_streaming net k = (streaming_banner # Sent (streaming_request k) # fst (consume_stream (resp_lines r)),
      snd (consume_stream (resp_lines r)))"
  by (simp add: chat_streaming_def)

lemma body_hi: \<open>json_loads (asc ''{"choices":[{"message":{"content":"hi"}}]}'') =
   Inr (PDict [(asc ''choices'', PList [PDict [(asc ''message'', PDict [(asc ''content'', PStr (asc ''hi''))])]])])\<close>
  by (simp add: json_eval)

lemma content_hi: "message_content (PDict [(asc ''choices'', PList [PDict [(asc ''message'', PDict [(asc ''content'', v)])]])]) = Inr v"
  by (simp add: message_content_def sum_bind_def)

lemma chat_hi:
  assumes "net (chat_request k) = Inr r" "200 \<le> resp_status r \<and> resp_status r \<le> 299"
    \<open>resp_text r = asc ''{"choices":[{"message":{"content":"hi"}}]}''\<close>
  shows "chat net k = ([Sent (chat_request k), regular_banner, Print [PStr (asc ''hi'')] [newline] False], Inr ())"
  using assms by (simp add: chat_def raise_for_status_def body_hi content_hi encodable_asc)

lemma chat_hi_text: "stdout_text rp [Sent req, regular_banner, Print [PStr (asc ''hi'')] [newline] False]
   = asc ''=== Regular ==='' @ [newline] @ asc ''hi'' @ [newline]"
  by (simp add: stdout_text_def regular_banner_def)

text \<open>
  C1.  For the body whose lines are the frame with \<^verbatim>\<open>"A"\<close>, the frame with \<^verbatim>\<open>"B"\<close> and
  \<^verbatim>\<open>data: [DONE]\<close>, lines 70 to 80 print \<^verbatim>\<open>A\<close>, then \<^verbatim>\<open>B\<close>, then one newline, and return
  normally: the text they put on the output channel is \<^verbatim>\<open>AB\<close> and a newline (in the
  whole call it follows the banner).  In general the text is the fragments of the
  lines in the order of the lines, then the newline, and the call returns
  normally, both when the lines run out and when the loop breaks at the sentinel.
\<close>

theorem streamed_fragments_assembled:
  \<open>consume_stream [asc ''data: {"choices":[{"delta":{"content":"A"}}]}'',
                   asc ''data: {"choices":[{"delta":{"content":"B"}}]}'',
                   asc ''data: [DONE]''] =
     ([ReadLine (asc ''data: {"choices":[{"delta":{"content":"A"}}]}''),
       Print [PStr (asc ''A'')] [] True,
       ReadLine (asc ''data: {"choices":[{"delta":{"content":"B"}}]}''),
       Print [PStr (asc ''B'')] [] True,
       ReadLine (asc ''data: [DONE]''),
       Print [] [newline] False], Inr ())
   \<and> stdout_text rp
        (fst (consume_stream [asc ''data: {"choices":[{"delta":{"content":"A"}}]}'',
                              asc ''data: {"choices":[{"delta":{"content":"B"}}]}'',
                              asc ''data: [DONE]''])) = asc ''AB'' @ [newline]
   \<and> (list_all continues ls \<longrightarrow>
        consume_stream ls = (fst (decode_loop ls) @ [Print [] [newline] False], Inr ())
        \<and> stdout_text rp (fst (consume_stream ls)) = concat (map (fragment rp) ls) @ [newline])
   \<and> (list_all continues pre \<and> handle_line l = Break \<longrightarrow>
        consume_stream (pre @ l # post) =
          (fst (decode_loop pre) @ [ReadLine l, Print [] [newline] False], Inr ())
        \<and> stdout_text rp (fst (consume_stream (pre @ l # post))) =
            concat (map (fragment rp) pre) @ [newline])
   \<and> (\<forall>r. net (streaming_request k) = Inr r \<and> raise_for_status r = Inr ()
          \<and> resp_lines r = [asc ''data: {"choices":[{"delta":{"content":"A"}}]}'',
                            asc ''data: {"choices":[{"delta":{"content":"B"}}]}'',
                            asc ''data: [DONE]''] \<longrightarrow>
        snd (chat_streaming net k) = Inr ()
        \<and> stdout_text rp (fst (chat_streaming net k)) =
            newline # asc ''=== Streaming ==='' @ [newline] @ asc ''AB'' @ [newline])\<close>
proof -
  have e: \<open>\<forall>r. net (streaming_request k) = Inr r \<and> raise_for_status r = Inr ()
          \<and> resp_lines r = [asc ''data: {"choices":[{"delta":{"content":"A"}}]}'',
                            asc ''data: {"choices":[{"delta":{"content":"B"}}]}'',
                            asc ''data: [DONE]''] \<longrightarrow>
        snd (chat_streaming net k) = Inr ()
        \<and> stdout_text rp (fst (chat_streaming net k)) =
            newline # asc ''=== Streaming ==='' @ [newline] @ asc ''AB'' @ [newline]\<close>
  proof (intro allI impI)
    fix r
    assume h: \<open>net (streaming_request k) = Inr r \<and> raise_for_status r = Inr ()
          \<and> resp_lines r = [asc ''data: {"choices":[{"delta":{"content":"A"}}]}'',
                            asc ''data: {"choices":[{"delta":{"content":"B"}}]}'',
                            asc ''data: [DONE]'']\<close>
    then have c: "chat_streaming net k =
        (streaming_banner # Sent (streaming_request k) # fst (consume_stream (resp_lines r)),
         snd (consume_stream (resp_lines r)))"
      by (simp add: chat_streaming_ok)
    have t: "stdout_text rp (fst (chat_streaming net k)) =
        stdout_text rp [streaming_banner, Sent (streaming_request k)]
          @ stdout_text rp (fst (consume_stream (resp_lines r)))"
      by (simp add: c stdout_text_def)
    show "snd (chat_streaming net k) = Inr ()
        \<and> stdout_text rp (fst (chat_streaming net k)) =
            newline # asc ''=== Streaming ==='' @ [newline] @ asc ''AB'' @ [newline]"
    proof -
      from h have l: \<open>resp_lines r = [asc ''data: {"choices":[{"delta":{"content":"A"}}]}'',
                            asc ''data: {"choices":[{"delta":{"content":"B"}}]}'',
                            asc ''data: [DONE]'']\<close>
        by (rule conjunct2 [OF conjunct2])
      have s: "snd (chat_streaming net k) = Inr ()"
        unfolding c l stream_AB by simp
      have x: "stdout_text rp (fst (chat_streaming net k)) =
            newline # asc ''=== Streaming ==='' @ [newline] @ asc ''AB'' @ [newline]"
        unfolding t l stream_AB_text streaming_banner_text by simp
      from s x show ?thesis by (rule conjI)
    qed
  qed
  have c: "list_all continues ls \<longrightarrow>
        consume_stream ls = (fst (decode_loop ls) @ [Print [] [newline] False], Inr ())
        \<and> stdout_text rp (fst (consume_stream ls)) = concat (map (fragment rp) ls) @ [newline]"
    using exhausted_end [where ls = ls and rp = rp] by blast
  have d: "list_all continues pre \<and> handle_line l = Break \<longrightarrow>
        consume_stream (pre @ l # post) =
          (fst (decode_loop pre) @ [ReadLine l, Print [] [newline] False], Inr ())
        \<and> stdout_text rp (fst (consume_stream (pre @ l # post))) =
            concat (map (fragment rp) pre) @ [newline]"
    using sentinel_end [where pre = pre and l = l and rp = rp and post = post] by blast
  show ?thesis
    by (rule conjI [OF stream_AB conjI [OF stream_AB_text conjI [OF c conjI [OF d e]]]])
qed


theorem streamed_fragments_assembled_witness:
  \<open>list_all continues [asc '': ping'']
   \<and> consume_stream [asc '': ping''] = (fst (decode_loop [asc '': ping'']) @ [Print [] [newline] False], Inr ())
   \<and> list_all continues [asc ''data: {"choices":[{"delta":{"content":"A"}}]}'',
                         asc ''data: {"choices":[{"delta":{"content":"B"}}]}'']
   \<and> handle_line (asc ''data: [DONE]'') = Break
   \<and> stdout_text (always [])
        (fst (consume_stream ([asc ''data: {"choices":[{"delta":{"content":"A"}}]}'',
                               asc ''data: {"choices":[{"delta":{"content":"B"}}]}'']
                              @ asc ''data: [DONE]'' # []))) =
       concat (map (fragment (always []))
                 [asc ''data: {"choices":[{"delta":{"content":"A"}}]}'',
                  asc ''data: {"choices":[{"delta":{"content":"B"}}]}'']) @ [newline]
   \<and> always (Inr \<lparr>resp_status = 200, resp_text = [],
                   resp_lines = [asc ''data: {"choices":[{"delta":{"content":"A"}}]}'',
                                 asc ''data: {"choices":[{"delta":{"content":"B"}}]}'',
                                 asc ''data: [DONE]'']\<rparr>) (streaming_request (asc ''sk'')) =
       Inr \<lparr>resp_status = 200, resp_text = [],
            resp_lines = [asc ''data: {"choices":[{"delta":{"content":"A"}}]}'',
                          asc ''data: {"choices":[{"delta":{"content":"B"}}]}'',
                          asc ''data: [DONE]'']\<rparr>
   \<and> snd (chat_streaming
            (always (Inr \<lparr>resp_status = 200, resp_text = [],
                          resp_lines = [asc ''data: {"choices":[{"delta":{"content":"A"}}]}'',
                                        asc ''data: {"choices":[{"delta":{"content":"B"}}]}'',
                                        asc ''data: [DONE]'']\<rparr>)) (asc ''sk'')) = Inr ()\<close>
proof -
  let ?A = \<open>asc ''data: {"choices":[{"delta":{"content":"A"}}]}''\<close>
  let ?B = \<open>asc ''data: {"choices":[{"delta":{"content":"B"}}]}''\<close>
  let ?D = "asc ''data: [DONE]''"
  let ?r = "\<lparr>resp_status = 200, resp_text = [], resp_lines = [?A, ?B, ?D]\<rparr>"
  have c1: "list_all continues [asc '': ping'']"
    by (simp add: continues_def skip_line [OF comment_line_not_data])
  have c2: "list_all continues [?A, ?B]"
    by (simp add: continues_def handle_frame_A handle_frame_B)
  note t1 = streamed_fragments_assembled [where rp = "always []" and ls = "[asc '': ping'']"]
  note t2 = streamed_fragments_assembled
      [where rp = "always []" and pre = "[?A, ?B]" and l = ?D and post = "[]"
         and net = "always (Inr ?r)" and k = "asc ''sk''"]
  have x1: "consume_stream [asc '': ping''] = (fst (decode_loop [asc '': ping'']) @ [Print [] [newline] False], Inr ())"
    by (rule conjunct1 [OF mp [OF t1 [THEN conjunct2, THEN conjunct2, THEN conjunct1] c1]])
  have x2: "stdout_text (always []) (fst (consume_stream ([?A, ?B] @ ?D # []))) =
       concat (map (fragment (always [])) [?A, ?B]) @ [newline]"
    by (rule conjunct2
          [OF mp [OF t2 [THEN conjunct2, THEN conjunct2, THEN conjunct2, THEN conjunct1]
                    conjI [OF c2 handle_done_line]]])
  have n: "always (Inr ?r) (streaming_request (asc ''sk'')) = Inr ?r"
    by (simp only: always_def)
  have ok: "raise_for_status ?r = Inr ()"
    by (simp add: raise_for_status_def)
  have l: "resp_lines ?r = [?A, ?B, ?D]"
    by simp
  have x3: "snd (chat_streaming (always (Inr ?r)) (asc ''sk'')) = Inr ()"
    by (rule conjunct1
          [OF mp [OF t2 [THEN conjunct2, THEN conjunct2, THEN conjunct2, THEN conjunct2,
                         THEN spec, of ?r]
                    conjI [OF n conjI [OF ok l]]]])
  show ?thesis
    by (rule conjI [OF c1 conjI [OF x1 conjI [OF c2 conjI [OF handle_done_line conjI [OF x2 conjI [OF n x3]]]]]])
qed

text \<open>
  C5, as the program has it.  For a success response whose body is
  \<^verbatim>\<open>{"choices":[{"message":{"content":"hi"}}]}\<close> the synchronous call prints its banner
  line and then \<^verbatim>\<open>hi\<close> with the newline of \<^verbatim>\<open>print\<close>, and returns normally.
\<close>

theorem chat_prints_banner_and_message:
  assumes "net (chat_request k) = Inr r"
    and "200 \<le> resp_status r \<and> resp_status r \<le> 299"
    and \<open>resp_text r = asc ''{"choices":[{"message":{"content":"hi"}}]}''\<close>
  shows "chat net k =
           ([Sent (chat_request k), regular_banner, Print [PStr (asc ''hi'')] [newline] False],
            Inr ())
       \<and> stdout_text rp (fst (chat net k)) =
           asc ''=== Regular ==='' @ [newline] @ asc ''hi'' @ [newline]"
proof -
  have c: "chat net k =
           ([Sent (chat_request k), regular_banner, Print [PStr (asc ''hi'')] [newline] False],
            Inr ())"
    using assms by (rule chat_hi [where net = net and k = k and r = r])
  have t: "stdout_text rp (fst (chat net k)) =
           asc ''=== Regular ==='' @ [newline] @ asc ''hi'' @ [newline]"
    unfolding c fst_conv by (rule chat_hi_text)
  from c t show ?thesis by (rule conjI)
qed

theorem chat_prints_banner_and_message_witness:
  \<open>always (Inr \<lparr>resp_status = 200,
                 resp_text = asc ''{"choices":[{"message":{"content":"hi"}}]}'',
                 resp_lines = []\<rparr>) (chat_request (asc ''sk'')) =
     Inr \<lparr>resp_status = 200, resp_text = asc ''{"choices":[{"message":{"content":"hi"}}]}'',
          resp_lines = []\<rparr>
   \<and> chat (always (Inr \<lparr>resp_status = 200,
                         resp_text = asc ''{"choices":[{"message":{"content":"hi"}}]}'',
                         resp_lines = []\<rparr>)) (asc ''sk'') =
       ([Sent (chat_request (asc ''sk'')), regular_banner,
         Print [PStr (asc ''hi'')] [newline] False], Inr ())\<close>
proof -
  let ?r = \<open>\<lparr>resp_status = 200, resp_text = asc ''{"choices":[{"message":{"content":"hi"}}]}'',
          resp_lines = []\<rparr>\<close>
  have n: "always (Inr ?r) (chat_request (asc ''sk'')) = Inr ?r"
    by (simp only: always_def)
  have s: "200 \<le> resp_status ?r \<and> resp_status ?r \<le> 299"
    by simp
  have b: \<open>resp_text ?r = asc ''{"choices":[{"message":{"content":"hi"}}]}''\<close>
    by simp
  note t = chat_prints_banner_and_message
      [where net = "always (Inr ?r)" and k = "asc ''sk''" and r = ?r and rp = "always []",
       OF n s b]
  show ?thesis
    by (rule conjI [OF n conjunct1 [OF t]])
qed

text \<open>
  C5 as stated does not hold: for that response the text on the output channel is
  not exactly \<^verbatim>\<open>hi\<close>.
\<close>

theorem chat_output_counterexample:
  \<open>stdout_text (always [])
     (fst (chat (always (Inr \<lparr>resp_status = 200,
                             resp_text = asc ''{"choices":[{"message":{"content":"hi"}}]}'',
                             resp_lines = []\<rparr>)) (asc ''sk''))) \<noteq> asc ''hi''\<close>
proof -
  let ?r = \<open>\<lparr>resp_status = 200, resp_text = asc ''{"choices":[{"message":{"content":"hi"}}]}'',
          resp_lines = []\<rparr>\<close>
  have n: "always (Inr ?r) (chat_request (asc ''sk'')) = Inr ?r"
    by (simp only: always_def)
  have s: "200 \<le> resp_status ?r \<and> resp_status ?r \<le> 299"
    by simp
  have b: \<open>resp_text ?r = asc ''{"choices":[{"message":{"content":"hi"}}]}''\<close>
    by simp
  have c: "chat (always (Inr ?r)) (asc ''sk'') =
       ([Sent (chat_request (asc ''sk'')), regular_banner,
         Print [PStr (asc ''hi'')] [newline] False], Inr ())"
    using n s b by (rule chat_hi [where net = "always (Inr ?r)" and k = "asc ''sk''" and r = ?r])
  have d: "asc ''=== Regular ==='' @ [newline] @ asc ''hi'' @ [newline] \<noteq> asc ''hi''"
    by (simp add: asc_def)
  show ?thesis
    unfolding c fst_conv chat_hi_text by (rule d)
qed

section \<open>The streaming loop: data frames\<close>




text \<open>
  C9.  A data frame that is not the sentinel raises when its payload is not JSON
  (\<^verbatim>\<open>JSONDecodeError\<close>), when the decoded object has no \<^verbatim>\<open>choices\<close> (\<^verbatim>\<open>KeyError\<close>), when
  \<^verbatim>\<open>choices\<close> is an empty list (\<^verbatim>\<open>IndexError\<close>), and when the first choice has no
  \<^verbatim>\<open>delta\<close> (\<^verbatim>\<open>KeyError\<close>).  An exception ends the loop at that line: later lines are
  not read, the closing \<^verbatim>\<open>print()\<close> does not run, and the call raises the exception.
  A missing or empty \<^verbatim>\<open>content\<close> in a delta object is passed over in silence, and a
  frame is passed over in silence only when it decodes to an object whose first
  choice has a delta object and the \<^verbatim>\<open>content\<close> there is missing or false.
\<close>

theorem malformed_frame_raises:
  assumes "startswith l (asc ''data: '')"
    and "strip (removeprefix l (asc ''data: '')) \<noteq> asc ''[DONE]''"
  shows "(\<forall>e. json_loads (removeprefix l (asc ''data: '')) = Inl e \<longrightarrow>
            handle_line l = Raise JSONDecodeError)
       \<and> (\<forall>d. json_loads (removeprefix l (asc ''data: '')) = Inr (PDict d)
              \<and> map_of d (asc ''choices'') = None \<longrightarrow>
            handle_line l = Raise KeyError)
       \<and> (\<forall>d. json_loads (removeprefix l (asc ''data: '')) = Inr (PDict d)
              \<and> map_of d (asc ''choices'') = Some (PList []) \<longrightarrow>
            handle_line l = Raise IndexError)
       \<and> (\<forall>d c more. json_loads (removeprefix l (asc ''data: '')) = Inr (PDict d)
              \<and> map_of d (asc ''choices'') = Some (PList (PDict c # more))
              \<and> map_of c (asc ''delta'') = None \<longrightarrow>
            handle_line l = Raise KeyError)
       \<and> (\<forall>e. handle_line l = Raise e \<and> list_all continues pre \<longrightarrow>
            consume_stream (pre @ l # post) = (fst (decode_loop pre) @ [ReadLine l], Inl e))
       \<and> (\<forall>e r. handle_line l = Raise e \<and> list_all continues pre
              \<and> net (streaming_request k) = Inr r \<and> raise_for_status r = Inr ()
              \<and> resp_lines r = pre @ l # post \<longrightarrow>
            snd (chat_streaming net k) = Inl e)
       \<and> (\<forall>chunk dd. json_loads (removeprefix l (asc ''data: '')) = Inr chunk
              \<and> chunk_delta chunk = Inr (PDict dd)
              \<and> (map_of dd (asc ''content'') = None
                  \<or> map_of dd (asc ''content'') = Some (PStr [])) \<longrightarrow>
            handle_line l = Continue [])
       \<and> (handle_line l = Continue [] \<longrightarrow>
            (\<exists>d c more dd. json_loads (removeprefix l (asc ''data: '')) = Inr (PDict d)
               \<and> map_of d (asc ''choices'') = Some (PList (PDict c # more))
               \<and> map_of c (asc ''delta'') = Some (PDict dd)
               \<and> (case map_of dd (asc ''content'') of None \<Rightarrow> True | Some v \<Rightarrow> \<not> truthy v)))"
proof -
  note hf = handle_frame [OF assms]
  have a: "\<forall>e. json_loads (removeprefix l (asc ''data: '')) = Inl e \<longrightarrow>
            handle_line l = Raise JSONDecodeError"
    using hf by (auto dest: json_loads_error)
  have b: "\<forall>d. json_loads (removeprefix l (asc ''data: '')) = Inr (PDict d)
              \<and> map_of d (asc ''choices'') = None \<longrightarrow>
            handle_line l = Raise KeyError"
    using hf by (auto simp: chunk_delta_def sum_bind_def)
  have c: "\<forall>d. json_loads (removeprefix l (asc ''data: '')) = Inr (PDict d)
              \<and> map_of d (asc ''choices'') = Some (PList []) \<longrightarrow>
            handle_line l = Raise IndexError"
    using hf by (auto simp: chunk_delta_def sum_bind_def)
  have d: "\<forall>d c more. json_loads (removeprefix l (asc ''data: '')) = Inr (PDict d)
              \<and> map_of d (asc ''choices'') = Some (PList (PDict c # more))
              \<and> map_of c (asc ''delta'') = None \<longrightarrow>
            handle_line l = Raise KeyError"
    using hf by (auto simp: chunk_delta_def sum_bind_def)
  have e: "\<forall>e. handle_line l = Raise e \<and> list_all continues pre \<longrightarrow>
            consume_stream (pre @ l # post) = (fst (decode_loop pre) @ [ReadLine l], Inl e)"
    by (auto intro: loop_raise)
  have f: "\<forall>e r. handle_line l = Raise e \<and> list_all continues pre
              \<and> net (streaming_request k) = Inr r \<and> raise_for_status r = Inr ()
              \<and> resp_lines r = pre @ l # post \<longrightarrow>
            snd (chat_streaming net k) = Inl e"
    by (auto simp: chat_streaming_def loop_raise)
  have g: "\<forall>chunk dd. json_loads (removeprefix l (asc ''data: '')) = Inr chunk
              \<and> chunk_delta chunk = Inr (PDict dd)
              \<and> (map_of dd (asc ''content'') = None
                  \<or> map_of dd (asc ''content'') = Some (PStr [])) \<longrightarrow>
            handle_line l = Continue []"
    using frame_content [OF assms] by auto
  have h: "handle_line l = Continue [] \<longrightarrow>
            (\<exists>d c more dd. json_loads (removeprefix l (asc ''data: '')) = Inr (PDict d)
               \<and> map_of d (asc ''choices'') = Some (PList (PDict c # more))
               \<and> map_of c (asc ''delta'') = Some (PDict dd)
               \<and> (case map_of dd (asc ''content'') of None \<Rightarrow> True | Some v \<Rightarrow> \<not> truthy v))"
    using frame_silent [OF assms] by blast
  from a b c d e f g h show ?thesis by blast
qed

theorem malformed_frame_raises_witness:
  \<open>startswith (asc ''data: {'') (asc ''data: '')
   \<and> strip (removeprefix (asc ''data: {'') (asc ''data: '')) \<noteq> asc ''[DONE]''
   \<and> json_loads (removeprefix (asc ''data: {'') (asc ''data: '')) = Inl JSONDecodeError
   \<and> handle_line (asc ''data: {'') = Raise JSONDecodeError
   \<and> consume_stream ([asc '': ping''] @ asc ''data: {'' # [asc ''data: [DONE]'']) =
       (fst (decode_loop [asc '': ping'']) @ [ReadLine (asc ''data: {'')], Inl JSONDecodeError)
   \<and> handle_line (asc ''data: {}'') = Raise KeyError
   \<and> handle_line (asc ''data: {"choices":[]}'') = Raise IndexError
   \<and> handle_line (asc ''data: {"choices":[{}]}'') = Raise KeyError
   \<and> handle_line (asc ''data: {"choices":[{"delta":{"role":"assistant"}}]}'') = Continue []\<close>
proof -
  have c: "list_all continues [asc '': ping'']"
    by (simp add: continues_def skip_line [OF comment_line_not_data])
  note t1 = malformed_frame_raises
      [OF conjunct1 [OF frame_not_json] conjunct1 [OF conjunct2 [OF frame_not_json]],
       of "[asc '': ping'']" "[asc ''data: [DONE]'']"]
  note t2 = malformed_frame_raises
      [OF conjunct1 [OF frame_no_choices] conjunct1 [OF conjunct2 [OF frame_no_choices]]]
  note t3 = malformed_frame_raises
      [OF conjunct1 [OF frame_empty_choices] conjunct1 [OF conjunct2 [OF frame_empty_choices]]]
  note t4 = malformed_frame_raises
      [OF conjunct1 [OF frame_no_delta] conjunct1 [OF conjunct2 [OF frame_no_delta]]]
  note t5 = malformed_frame_raises
      [OF conjunct1 [OF frame_role] conjunct1 [OF conjunct2 [OF frame_role]]]
  have h1: "handle_line (asc ''data: {'') = Raise JSONDecodeError"
    using t1 frame_not_json by blast
  have h1': "consume_stream ([asc '': ping''] @ asc ''data: {'' # [asc ''data: [DONE]'']) =
       (fst (decode_loop [asc '': ping'']) @ [ReadLine (asc ''data: {'')], Inl JSONDecodeError)"
    using t1 h1 c by blast
  have h2: "handle_line (asc ''data: {}'') = Raise KeyError"
    using t2 frame_no_choices by simp
  have h3: \<open>handle_line (asc ''data: {"choices":[]}'') = Raise IndexError\<close>
    using t3 frame_empty_choices by simp
  have h4: \<open>handle_line (asc ''data: {"choices":[{}]}'') = Raise KeyError\<close>
    using t4 frame_no_delta by simp
  have m: "map_of [(asc ''role'', PStr (asc ''assistant''))] (asc ''content'') = None"
    by (simp add: asc_def)
  have h5: \<open>handle_line (asc ''data: {"choices":[{"delta":{"role":"assistant"}}]}'') = Continue []\<close>
    using t5 frame_role chunk_delta_example [of "[(asc ''role'', PStr (asc ''assistant''))]"] m
    by blast
  show ?thesis
    using frame_not_json h1 h1' h2 h3 h4 h5 by blast
qed

section \<open>The entry point\<close>

text \<open>
  C8.  When the environment has no \<^verbatim>\<open>OPENAI_API_KEY\<close>, \<^verbatim>\<open>main\<close> raises \<^verbatim>\<open>SystemExit\<close> with
  the diagnostic as its argument and its trace is empty: nothing was printed, no
  request was handed to the network, neither chat call ran.  The interpreter then
  writes the diagnostic on the error channel and ends with status 1.
\<close>

theorem missing_credential_is_fatal:
  assumes "environ (asc ''OPENAI_API_KEY'') = None"
  shows "main environ net =
           ([], Inl (SystemExit (asc ''Set OPENAI_API_KEY environment variable'')))
       \<and> exit_code (snd (main environ net)) = 1
       \<and> stderr_text tb (snd (main environ net)) =
           asc ''Set OPENAI_API_KEY environment variable'' @ [newline]"
  using assms by (simp add: main_def exit_code_def stderr_text_def)

theorem missing_credential_is_fatal_witness:
  "(Map.empty :: pystr \<rightharpoonup> pystr) (asc ''OPENAI_API_KEY'') = None
   \<and> main Map.empty (always (Inl TransportError)) =
       ([], Inl (SystemExit (asc ''Set OPENAI_API_KEY environment variable'')))
   \<and> exit_code (snd (main Map.empty (always (Inl TransportError)))) = 1
   \<and> stderr_text (always []) (snd (main Map.empty (always (Inl TransportError)))) =
       asc ''Set OPENAI_API_KEY environment variable'' @ [newline]"
proof -
  have absent: "(Map.empty :: pystr \<rightharpoonup> pystr) (asc ''OPENAI_API_KEY'') = None"
    by simp
  show ?thesis
    using absent missing_credential_is_fatal
            [OF absent, where net = "always (Inl TransportError)" and tb = "always []"]
    by blast
qed

text \<open>
  C10.  A credential variable set to the empty string is treated as an absent one:
  \<^verbatim>\<open>main\<close> gives the same result as without the variable, the \<^verbatim>\<open>SystemExit\<close> with the
  diagnostic and an empty trace.  So every request \<^verbatim>\<open>main\<close> sends carries the header
  built from a non-empty credential, although the header builder does accept the
  empty string.
\<close>

theorem empty_credential_is_like_absent:
  \<open>(environ (asc ''OPENAI_API_KEY'') = Some [] \<longrightarrow>
      main environ net =
        ([], Inl (SystemExit (asc ''Set OPENAI_API_KEY environment variable'')))
      \<and> main environ net = main (environ(asc ''OPENAI_API_KEY'' := None)) net)
   \<and> (\<forall>req. Sent req \<in> set (fst (main environ net)) \<longrightarrow>
         (\<exists>k. k \<noteq> [] \<and> environ (asc ''OPENAI_API_KEY'') = Some k
            \<and> req_headers req =
                dict_update (mk_dict [(asc ''Content-Type'', asc ''application/json'')])
                  (provider_data_header k)))
   \<and> provider_data_header [] =
       [(asc ''X-LlamaStack-Provider-Data'',
         asc ''{"passthrough_api_key": "", "passthrough_url": "https://api.openai.com"}'')]\<close>
  using main_empty_credential [of environ net] header_of_empty_credential
  by (auto dest!: main_sent intro: request_headers)

theorem empty_credential_is_like_absent_witness:
  "[asc ''OPENAI_API_KEY'' \<mapsto> []] (asc ''OPENAI_API_KEY'') = Some []
   \<and> main [asc ''OPENAI_API_KEY'' \<mapsto> []] (always (Inl TransportError)) =
       ([], Inl (SystemExit (asc ''Set OPENAI_API_KEY environment variable'')))
   \<and> Sent (chat_request (asc ''sk''))
       \<in> set (fst (main [asc ''OPENAI_API_KEY'' \<mapsto> asc ''sk''] (always (Inl TransportError))))
   \<and> req_headers (chat_request (asc ''sk'')) =
       dict_update (mk_dict [(asc ''Content-Type'', asc ''application/json'')])
         (provider_data_header (asc ''sk''))"
proof -
  have a: "[asc ''OPENAI_API_KEY'' \<mapsto> []] (asc ''OPENAI_API_KEY'') = Some []"
    by simp
  have b: "Sent (chat_request (asc ''sk''))
       \<in> set (fst (main [asc ''OPENAI_API_KEY'' \<mapsto> asc ''sk''] (always (Inl TransportError))))"
    by (simp add: main_no_network)
  show ?thesis
    using a b
      empty_credential_is_like_absent
        [of "[asc ''OPENAI_API_KEY'' \<mapsto> []]" "always (Inl TransportError)"]
      empty_credential_is_like_absent
        [of "[asc ''OPENAI_API_KEY'' \<mapsto> asc ''sk'']" "always (Inl TransportError)"]
    by auto
qed

section \<open>Facts about the JSON round trip\<close>

lemma horner16:
  "n = 16 * q1 + r0 \<Longrightarrow> q1 = 16 * q2 + r1 \<Longrightarrow> q2 = 16 * q3 + r2 \<Longrightarrow>
   ((q3 * 16 + r2) * 16 + r1) * 16 + r0 = (n::nat)"
  by simp

lemma hex_sum:
  assumes "n < 65536"
  shows "((n div 4096 mod 16 * 16 + n div 256 mod 16) * 16 + n div 16 mod 16) * 16 + n mod 16 = (n::nat)"
proof -
  have d2: "n div 256 = n div 16 div 16"
    using div_mult2_eq [of n 16 16] by simp
  have d3: "n div 4096 = n div 256 div 16"
    using div_mult2_eq [of n 256 16] by simp
  have s: "n div 4096 < 16"
    using assms by (simp add: less_mult_imp_div_less)
  have e1: "n = 16 * (n div 16) + n mod 16" by simp
  have e2: "n div 16 = 16 * (n div 256) + n div 16 mod 16" unfolding d2 by simp
  have e3: "n div 256 = 16 * (n div 4096) + n div 256 mod 16" unfolding d3 by simp
  have m: "n div 4096 mod 16 = n div 4096" using s by simp
  show ?thesis unfolding m by (rule horner16 [OF e1 e2 e3])
qed

lemma sp1: assumes "65536 \<le> n" "n < 1114112"
  shows "(n - 65536) div 1024 < (1024::nat)"
  using assms by (simp add: less_mult_imp_div_less)

lemma sub_add: "a = q * 1024 + r \<Longrightarrow> 65536 \<le> n \<Longrightarrow> a = n - 65536 \<Longrightarrow> q * 1024 + r + 65536 = (n::nat)"
  by simp

lemma sp2: assumes "65536 \<le> (n::nat)"
  shows "(n - 65536) div 1024 * 1024 + n mod 1024 + 65536 = n"
proof -
  have "(n - 65536) mod 1024 = (n - 65536 + 64 * 1024) mod 1024"
    by (simp only: mod_mult_self1)
  also have "n - 65536 + 64 * 1024 = n" using assms by simp
  finally have m: "(n - 65536) mod 1024 = n mod 1024" .
  have "n - 65536 = (n - 65536) div 1024 * 1024 + (n - 65536) mod 1024" by simp
  then have "n - 65536 = (n - 65536) div 1024 * 1024 + n mod 1024" unfolding m .
  from sub_add [OF this assms refl] show ?thesis .
qed

lemma surrogate_split:
  assumes "65536 \<le> n" "n < 1114112"
  shows "is_high_surrogate (0xD800 + (n - 0x10000) div 1024)"
    and "is_low_surrogate (0xDC00 + n mod 1024)"
    and "join_surrogates (0xD800 + (n - 0x10000) div 1024) (0xDC00 + n mod 1024) = n"
    and "0xD800 + (n - 0x10000) div 1024 < (65536::nat)"
    and "0xDC00 + n mod 1024 < (65536::nat)"
proof -
  have a: "(n - 65536) div 1024 < 1024" using assms by (rule sp1)
  have b: "n mod 1024 < 1024" by simp
  show "is_high_surrogate (0xD800 + (n - 0x10000) div 1024)"
    using a by (simp add: is_high_surrogate_def)
  show "is_low_surrogate (0xDC00 + n mod 1024)"
    using b by (simp add: is_low_surrogate_def)
  show "join_surrogates (0xD800 + (n - 0x10000) div 1024) (0xDC00 + n mod 1024) = n"
    using sp2 [OF assms(1)] by (simp add: join_surrogates_def)
  show "0xD800 + (n - 0x10000) div 1024 < (65536::nat)" using a by simp
  show "0xDC00 + n mod 1024 < (65536::nat)" using b by simp
qed

lemma cp_uchr: "cp (uchr n) = n"
  by (simp add: uchr_def)

lemma uchr_cp: "uchr (cp x) = x"
  by (cases x) (simp_all add: uchr_def)

lemma hexval_hexdigit: "d < 16 \<Longrightarrow> hexval (hexdigit d) = Some d"
  by (auto simp: hexval_def hexdigit_def cp_uchr Let_def)

lemma length_to_hex4: "length (to_hex4 n) = 4"
  by (simp add: to_hex4_def)

lemma hex4_to_hex4:
  assumes "n < 65536"
  shows "hex4 (to_hex4 n) = Some n"
proof -
  have "hex4 (to_hex4 n) =
      Some (((n div 4096 mod 16 * 16 + n div 256 mod 16) * 16 + n div 16 mod 16) * 16 + n mod 16)"
    by (simp add: hex4_def to_hex4_def hexval_hexdigit del: mult_Suc_right)
  then show ?thesis by (simp only: hex_sum [OF assms])
qed

lemma take_hex: "take 4 (to_hex4 n @ t) = to_hex4 n"
  by (simp add: length_to_hex4)

lemma drop_hex: "drop 4 (to_hex4 n @ t) = t"
  by (simp add: length_to_hex4)

lemma scan_plain:
  assumes "x \<noteq> dquote" "x \<noteq> bslash" "32 \<le> cp x"
  shows "scanstring (x # t) = cons_result x (scanstring t)"
  using assms by simp

lemma scan_short:
  assumes "unescape e = Some c" "e \<noteq> Ch CHR ''u''"
  shows "scanstring (bslash # e # t) = cons_result c (scanstring t)"
  using assms by (simp add: bslash_def dquote_def)

lemma scan_u_single:
  assumes "n < 65536" "is_high_surrogate n \<longrightarrow> no_join t"
  shows "scanstring (bslash # Ch CHR ''u'' # to_hex4 n @ t) = cons_result (uchr n) (scanstring t)"
proof (cases "is_high_surrogate n \<and> take 2 t = [bslash, Ch CHR ''u'']")
  case True
  with assms(2) obtain lo where lo: "hex4 (take 4 (drop 2 t)) = Some lo" "\<not> is_low_surrogate lo"
    by (auto simp: no_join_def)
  have d6: "drop 6 (to_hex4 n @ t) = drop 2 t"
    by (simp add: length_to_hex4)
  show ?thesis
    using True lo
    by (simp add: bslash_def dquote_def length_to_hex4 hex4_to_hex4 [OF assms(1)])
next
  case False
  then show ?thesis
    by (auto simp add: bslash_def dquote_def length_to_hex4 hex4_to_hex4 [OF assms(1)])
qed

lemma scan_u_pair:
  assumes "hi < 65536" "lo < 65536" "is_high_surrogate hi" "is_low_surrogate lo"
  shows "scanstring (bslash # Ch CHR ''u'' # to_hex4 hi @ bslash # Ch CHR ''u'' # to_hex4 lo @ t)
       = cons_result (uchr (join_surrogates hi lo)) (scanstring t)"
proof -
  let ?ys = "to_hex4 hi @ bslash # Ch CHR ''u'' # to_hex4 lo @ t"
  have a: "take 4 ?ys = to_hex4 hi" by (rule take_hex)
  have b: "drop 4 ?ys = bslash # Ch CHR ''u'' # to_hex4 lo @ t" by (rule drop_hex)
  have c: "drop 6 ?ys = to_hex4 lo @ t"
    by (simp add: length_to_hex4)
  have d: "drop 10 ?ys = t"
    by (simp add: length_to_hex4)
  have e: "take 4 (drop 6 ?ys) = to_hex4 lo" unfolding c by (rule take_hex)
  have f: "take 2 (drop 4 ?ys) = [bslash, Ch CHR ''u'']" unfolding b by simp
  show ?thesis
    using assms(3,4)
    by (simp add: bslash_def dquote_def length_to_hex4
        hex4_to_hex4 [OF assms(1)] hex4_to_hex4 [OF assms(2)])
qed

lemma not_both: "is_high_surrogate n \<Longrightarrow> \<not> is_low_surrogate n"
  by (simp add: is_high_surrogate_def is_low_surrogate_def)

lemma cp_consts:
  "cp dquote = 34" "cp bslash = 92"
  by (simp_all add: dquote_def bslash_def)

lemma of_char_bound: "of_char c < (256::nat)"
proof -
  have "(of_char c :: nat) mod 256 < 256" by simp
  then show ?thesis by (simp only: of_char_mod_256)
qed

lemma cp_is: "cp x = of_char c \<Longrightarrow> x = Ch c"
  using of_char_bound [of c] by (cases x) simp_all

lemma escape_step:
  assumes v: "cp x < 0x110000" and nj: "is_high_surrogate (cp x) \<longrightarrow> no_join t"
  shows "scanstring (escape_char x @ t) = cons_result x (scanstring t)"
proof -
  consider (q) "x = dquote" | (b) "x = bslash"
    | (plain) "x \<noteq> dquote" "x \<noteq> bslash" "32 \<le> cp x" "cp x \<le> 126"
    | (c8) "cp x = 8" | (c12) "cp x = 12" | (c10) "cp x = 10" | (c13) "cp x = 13" | (c9) "cp x = 9"
    | (single) "x \<noteq> dquote" "x \<noteq> bslash" "\<not> (32 \<le> cp x \<and> cp x \<le> 126)"
        "cp x \<notin> {8, 12, 10, 13, 9}" "cp x < 0x10000"
    | (pair) "\<not> cp x < 0x10000"
    by auto
  then show ?thesis
  proof cases
    case q
    then show ?thesis
      by (simp add: escape_char_def scan_short unescape_def dquote_def bslash_def)
  next
    case b
    then show ?thesis
      by (simp add: escape_char_def scan_short unescape_def dquote_def bslash_def)
  next
    case plain
    then show ?thesis
      by (simp add: escape_char_def scan_plain)
  next
    case c8
    then have "x = Ch (CHR 0x08)" by (intro cp_is) simp
    then show ?thesis
      by (simp add: escape_char_def scan_short unescape_def dquote_def bslash_def)
  next
    case c12
    then have "x = Ch (CHR 0x0C)" by (intro cp_is) simp
    then show ?thesis
      by (simp add: escape_char_def scan_short unescape_def dquote_def bslash_def)
  next
    case c10
    then have "x = Ch (CHR 0x0A)" by (intro cp_is) simp
    then show ?thesis
      by (simp add: escape_char_def scan_short unescape_def dquote_def bslash_def)
  next
    case c13
    then have "x = Ch (CHR 0x0D)" by (intro cp_is) simp
    then show ?thesis
      by (simp add: escape_char_def scan_short unescape_def dquote_def bslash_def)
  next
    case c9
    then have "x = Ch (CHR 0x09)" by (intro cp_is) simp
    then show ?thesis
      by (simp add: escape_char_def scan_short unescape_def dquote_def bslash_def)
  next
    case single
    have e: "escape_char x = [bslash, Ch CHR ''u''] @ to_hex4 (cp x)"
      using single by (auto simp: escape_char_def Let_def)
    show ?thesis
      using scan_u_single [OF single(5) nj] by (simp add: e uchr_cp)
  next
    case pair
    then have ge: "65536 \<le> cp x" by simp
    have lt: "cp x < 1114112" using v by simp
    have nq: "x \<noteq> dquote" "x \<noteq> bslash"
      using pair by (auto simp: cp_consts)
    have e: "escape_char x =
        [bslash, Ch CHR ''u''] @ to_hex4 (0xD800 + (cp x - 0x10000) div 1024) @
        [bslash, Ch CHR ''u''] @ to_hex4 (0xDC00 + cp x mod 1024)"
      using pair nq by (auto simp: escape_char_def Let_def)
    note s = surrogate_split [OF ge lt]
    show ?thesis
      using scan_u_pair [OF s(4) s(5) s(1) s(2), of t]
      by (simp add: e s(3) uchr_cp)
  qed
qed

lemma no_join_quote: "no_join (dquote # rest)"
  by (simp add: no_join_def dquote_def bslash_def)

lemma escape_char_cases:
  obtains (short) e where "escape_char x = [bslash, e]" "e \<noteq> Ch CHR ''u''"
    | (plain) "escape_char x = [x]" "x \<noteq> bslash"
    | (single) "escape_char x = [bslash, Ch CHR ''u''] @ to_hex4 (cp x)" "cp x < 0x10000"
    | (pair) "escape_char x =
        [bslash, Ch CHR ''u''] @ to_hex4 (0xD800 + (cp x - 0x10000) div 1024) @
        [bslash, Ch CHR ''u''] @ to_hex4 (0xDC00 + cp x mod 1024)" "\<not> cp x < 0x10000"
proof -
  consider (q) "x = dquote" | (b) "x = bslash"
    | (pl) "x \<noteq> dquote" "x \<noteq> bslash" "32 \<le> cp x" "cp x \<le> 126"
    | (c8) "cp x = 8" | (c12) "cp x = 12" | (c10) "cp x = 10" | (c13) "cp x = 13" | (c9) "cp x = 9"
    | (si) "x \<noteq> dquote" "x \<noteq> bslash" "\<not> (32 \<le> cp x \<and> cp x \<le> 126)"
        "cp x \<notin> {8, 12, 10, 13, 9}" "cp x < 0x10000"
    | (pa) "\<not> cp x < 0x10000"
    by auto
  then show thesis
  proof cases
    case q
    then show ?thesis
      by (intro short [of dquote]) (simp_all add: escape_char_def dquote_def bslash_def)
  next
    case b
    then show ?thesis
      by (intro short [of bslash]) (simp_all add: escape_char_def dquote_def bslash_def)
  next
    case pl
    then show ?thesis
      by (intro plain) (simp_all add: escape_char_def)
  next
    case c8
    then have "x = Ch (CHR 0x08)" by (intro cp_is) simp
    then show ?thesis
      by (intro short [of "Ch CHR ''b''"]) (simp_all add: escape_char_def dquote_def bslash_def)
  next
    case c12
    then have "x = Ch (CHR 0x0C)" by (intro cp_is) simp
    then show ?thesis
      by (intro short [of "Ch CHR ''f''"]) (simp_all add: escape_char_def dquote_def bslash_def)
  next
    case c10
    then have "x = Ch (CHR 0x0A)" by (intro cp_is) simp
    then show ?thesis
      by (intro short [of "Ch CHR ''n''"]) (simp_all add: escape_char_def dquote_def bslash_def)
  next
    case c13
    then have "x = Ch (CHR 0x0D)" by (intro cp_is) simp
    then show ?thesis
      by (intro short [of "Ch CHR ''r''"]) (simp_all add: escape_char_def dquote_def bslash_def)
  next
    case c9
    then have "x = Ch (CHR 0x09)" by (intro cp_is) simp
    then show ?thesis
      by (intro short [of "Ch CHR ''t''"]) (simp_all add: escape_char_def dquote_def bslash_def)
  next
    case si
    then show ?thesis
      by (intro single) (auto simp: escape_char_def Let_def)
  next
    case pa
    then have nq: "x \<noteq> dquote" "x \<noteq> bslash"
      by (auto simp: cp_consts)
    with pa show ?thesis
      by (intro pair) (auto simp: escape_char_def Let_def)
  qed
qed

lemma no_join_escape:
  assumes v: "cp y < 0x110000" and nl: "\<not> is_low_surrogate (cp y)"
  shows "no_join (escape_char y @ t)"
proof (cases y rule: escape_char_cases)
  case (short e)
  then show ?thesis by (simp add: no_join_def)
next
  case plain
  then show ?thesis by (simp add: no_join_def)
next
  case single
  show ?thesis
    using nl by (simp add: no_join_def single(1) length_to_hex4 hex4_to_hex4 [OF single(2)])
next
  case pair
  then have ge: "65536 \<le> cp y" by simp
  have lt: "cp y < 1114112" using v by simp
  note s = surrogate_split [OF ge lt]
  show ?thesis
    using not_both [OF s(1)]
    by (simp add: no_join_def pair(1) length_to_hex4 hex4_to_hex4 [OF s(4)])
qed

lemma scanstring_escaped:
  assumes "unicode_text c" "pair_free c"
  shows "scanstring (concat (map escape_char c) @ dquote # rest) = Some (c, rest)"
  using assms
proof (induction c rule: pair_free.induct)
  case 1
  then show ?case by simp
next
  case (2 x)
  then have v: "cp x < 0x110000" by (simp add: unicode_text_def)
  have "scanstring (escape_char x @ dquote # rest) = cons_result x (scanstring (dquote # rest))"
    using v no_join_quote by (intro escape_step) simp_all
  then show ?case by (simp add: cons_result_def)
next
  case (3 x y ys)
  then have v: "cp x < 0x110000" "cp y < 0x110000" and u: "unicode_text (y # ys)"
    and pf: "pair_free (y # ys)"
    and ns: "\<not> (is_high_surrogate (cp x) \<and> is_low_surrogate (cp y))"
    by (simp_all add: unicode_text_def)
  let ?t = "escape_char y @ concat (map escape_char ys) @ dquote # rest"
  have ih: "scanstring ?t = Some (y # ys, rest)"
    using 3(1) [OF u pf] by simp
  have nj: "is_high_surrogate (cp x) \<longrightarrow> no_join ?t"
    using ns no_join_escape [OF v(2)] by blast
  have "scanstring (escape_char x @ ?t) = cons_result x (scanstring ?t)"
    using v(1) nj by (rule escape_step)
  then show ?case by (simp add: ih cons_result_def)
qed

lemma dumps_str_scan:
  assumes "unicode_text c" "pair_free c"
  shows "scanstring (tl (dumps_str c) @ rest) = Some (c, rest)"
  using scanstring_escaped [OF assms, of rest] by (simp add: dumps_str_def)


lemma scan_esc:
  assumes "unicode_text c" "pair_free c"
  shows "scanstring (esc c @ dquote # rest) = Some (c, rest)"
  unfolding esc_def using assms by (rule scanstring_escaped)

lemma skip_ws_simps:
  "skip_ws (dquote # r) = dquote # r"
  "skip_ws (Ch CHR '':'' # r) = Ch CHR '':'' # r"
  "skip_ws (Ch CHR '','' # r) = Ch CHR '','' # r"
  "skip_ws (Ch CHR ''}'' # r) = Ch CHR ''}'' # r"
  "skip_ws (Ch CHR ''{'' # r) = Ch CHR ''{'' # r"
  "skip_ws (Ch CHR '' '' # r) = skip_ws r"
  "skip_ws [] = []"
  by (simp_all add: skip_ws_def is_json_ws_def dquote_def)

lemma scan_string_value:
  assumes "unicode_text v" "pair_free v"
  shows "scan_once (Suc n) (dquote # esc v @ dquote # rest) = Some (PStr v, rest)"
  by (simp add: scan_esc [OF assms])

lemma scan_member_last:
  assumes "unicode_text k" "pair_free k" "unicode_text v" "pair_free v"
  shows "scan_object (Suc (Suc n))
           (dquote # esc k @ dquote # Ch CHR '':'' # Ch CHR '' '' # dquote # esc v @ dquote #
            Ch CHR ''}'' # rest) = Some ([(k, PStr v)], rest)"
  by (simp add: scan_esc [OF assms(1,2)] scan_esc [OF assms(3,4)] skip_ws_simps)

lemma scan_two_members:
  assumes "unicode_text k1" "pair_free k1" "unicode_text v1" "pair_free v1"
    and "unicode_text k2" "pair_free k2" "unicode_text v2" "pair_free v2"
  shows "scan_object (Suc (Suc (Suc n)))
           (dquote # esc k1 @ dquote # Ch CHR '':'' # Ch CHR '' '' # dquote # esc v1 @ dquote #
            Ch CHR '','' # Ch CHR '' '' #
            dquote # esc k2 @ dquote # Ch CHR '':'' # Ch CHR '' '' # dquote # esc v2 @ dquote #
            Ch CHR ''}'' # rest) = Some ([(k1, PStr v1), (k2, PStr v2)], rest)"
  by (simp add: scan_esc [OF assms(1,2)] scan_esc [OF assms(3,4)] scan_esc [OF assms(5,6)]
      scan_esc [OF assms(7,8)] skip_ws_simps)

lemma scan_header_object:
  assumes "unicode_text k1" "pair_free k1" "unicode_text v1" "pair_free v1"
    and "unicode_text k2" "pair_free k2" "unicode_text v2" "pair_free v2"
  shows "scan_once (Suc (Suc (Suc (Suc n))))
           (Ch CHR ''{'' #
            dquote # esc k1 @ dquote # Ch CHR '':'' # Ch CHR '' '' # dquote # esc v1 @ dquote #
            Ch CHR '','' # Ch CHR '' '' #
            dquote # esc k2 @ dquote # Ch CHR '':'' # Ch CHR '' '' # dquote # esc v2 @ dquote #
            Ch CHR ''}'' # rest) = Some (PDict (mk_dict [(k1, PStr v1), (k2, PStr v2)]), rest)"
proof -
  have q: "Ch CHR ''{'' \<noteq> dquote" "dquote \<noteq> Ch CHR ''}''"
    by (simp_all add: dquote_def)
  show ?thesis
    using q by (simp add: skip_ws_simps scan_two_members [OF assms] del: scan_object.simps)
qed

lemma json_dumps_two:
  "json_dumps [(k1, v1), (k2, v2)] =
     Ch CHR ''{'' #
     dquote # esc k1 @ dquote # Ch CHR '':'' # Ch CHR '' '' # dquote # esc v1 @ dquote #
     Ch CHR '','' # Ch CHR '' '' #
     dquote # esc k2 @ dquote # Ch CHR '':'' # Ch CHR '' '' # dquote # esc v2 @ dquote #
     Ch CHR ''}'' # []"
  by (simp add: json_dumps_def dumps_str_def esc_def asc_def)

lemma mk_dict_two: "k1 \<noteq> k2 \<Longrightarrow> mk_dict [(k1, a), (k2, b)] = [(k1, a), (k2, b)]"
  by (simp add: mk_dict_def dict_update_def)

lemma loads_dumps_two:
  assumes "unicode_text k1" "pair_free k1" "unicode_text v1" "pair_free v1"
    and "unicode_text k2" "pair_free k2" "unicode_text v2" "pair_free v2"
    and "k1 \<noteq> k2"
  shows "json_loads (json_dumps [(k1, v1), (k2, v2)]) =
           Inr (PDict [(k1, PStr v1), (k2, PStr v2)])"
proof -
  let ?T = "json_dumps [(k1, v1), (k2, v2)]"
  have "3 \<le> length ?T" unfolding json_dumps_two by simp
  then obtain n where n: "Suc (length ?T) = Suc (Suc (Suc (Suc n)))"
    by (auto simp: le_iff_add)
  have ws: "skip_ws ?T = ?T"
    unfolding json_dumps_two by (rule skip_ws_simps)
  have bom: "\<not> startswith ?T [Wide (0xFEFF - 256)]"
    unfolding json_dumps_two by (simp add: startswith_def)
  have sc: "scan_once (Suc (length ?T)) (skip_ws ?T) =
      Some (PDict (mk_dict [(k1, PStr v1), (k2, PStr v2)]), [])"
    unfolding ws n unfolding json_dumps_two by (rule scan_header_object [OF assms(1-8)])
  show ?thesis
    using bom
    by (simp add: json_loads_def sc skip_ws_simps mk_dict_two [OF assms(9)]
        del: scan_once.simps)
qed



lemma cp_asc_bound: "cp (Ch c) < 256"
  using of_char_bound [of c] by simp

lemma unicode_text_asc: "unicode_text (asc s)"
proof -
  have "\<And>c. cp (Ch c) < 0x110000"
    by (rule less_trans [OF cp_asc_bound]) simp
  then show ?thesis
    by (simp add: unicode_text_def asc_def list_all_iff del: cp.simps)
qed

lemma pair_free_no_high:
  "list_all (\<lambda>x. \<not> is_high_surrogate (cp x)) s \<Longrightarrow> pair_free s"
  by (induction s rule: pair_free.induct) simp_all

lemma pair_free_asc: "pair_free (asc s)"
proof -
  have "\<not> is_high_surrogate (cp (Ch c))" for c
  proof -
    have "cp (Ch c) < 256" by (rule cp_asc_bound)
    then have "\<not> 0xD800 \<le> cp (Ch c)" by linarith
    then show ?thesis unfolding is_high_surrogate_def by blast
  qed
  then show ?thesis
    by (intro pair_free_no_high) (simp add: asc_def list_all_iff del: cp.simps)
qed

lemma header_keys_differ: "asc ''passthrough_api_key'' \<noteq> asc ''passthrough_url''"
  by (simp add: asc_def)

lemma provider_data_header_value:
  "provider_data_header c =
     [(asc ''X-LlamaStack-Provider-Data'',
       json_dumps [(asc ''passthrough_api_key'', c),
                   (asc ''passthrough_url'', asc ''https://api.openai.com'')])]"
  by (simp add: provider_data_header_def mk_dict_def dict_update_def header_keys_differ)

lemma header_round_trip:
  assumes "unicode_text c" and "pair_free c"
  shows "json_loads (json_dumps [(asc ''passthrough_api_key'', c),
                                  (asc ''passthrough_url'', asc ''https://api.openai.com'')]) =
           Inr (PDict [(asc ''passthrough_api_key'', PStr c),
                       (asc ''passthrough_url'', PStr (asc ''https://api.openai.com''))])"
  by (rule loads_dumps_two [OF unicode_text_asc pair_free_asc assms unicode_text_asc pair_free_asc
      unicode_text_asc pair_free_asc header_keys_differ])

lemma example_text:
  "unicode_text [Ch CHR ''s'', dquote, newline, uchr 0xE9, uchr 0x4E2D, uchr 0x1F600]"
  "pair_free [Ch CHR ''s'', dquote, newline, uchr 0xE9, uchr 0x4E2D, uchr 0x1F600]"
  by (simp_all add: unicode_text_def cp_uchr dquote_def newline_def is_high_surrogate_def)

lemma uchr_not_special: "34 < n \<Longrightarrow> n \<noteq> 92 \<Longrightarrow> uchr n \<noteq> dquote \<and> uchr n \<noteq> bslash"
  using cp_uchr [of n] by (auto simp: cp_consts)

lemma surrogates_escape_like_pair:
  "concat (map escape_char [uchr 0xD83D, uchr 0xDE00]) = concat (map escape_char [uchr 0x1F600])"
proof -
  have a: "escape_char (uchr 0xD83D) = [bslash, Ch CHR ''u''] @ to_hex4 0xD83D"
    using uchr_not_special [of "0xD83D"] by (simp add: escape_char_def cp_uchr)
  have b: "escape_char (uchr 0xDE00) = [bslash, Ch CHR ''u''] @ to_hex4 0xDE00"
    using uchr_not_special [of "0xDE00"] by (simp add: escape_char_def cp_uchr)
  have c: "escape_char (uchr 0x1F600) =
      [bslash, Ch CHR ''u''] @ to_hex4 0xD83D @ [bslash, Ch CHR ''u''] @ to_hex4 0xDE00"
    using uchr_not_special [of "0x1F600"] by (simp add: escape_char_def cp_uchr)
  show ?thesis by (simp add: a b c)
qed

lemma surrogates_dumps_like_pair:
  "json_dumps [(k1, [uchr 0xD83D, uchr 0xDE00]), (k2, v2)] = json_dumps [(k1, [uchr 0x1F600]), (k2, v2)]"
  using surrogates_escape_like_pair by (simp add: json_dumps_def dumps_str_def)

lemma pair_text: "unicode_text [uchr 0x1F600]" "pair_free [uchr 0x1F600]"
  by (simp_all add: unicode_text_def cp_uchr)

lemma surrogates_differ: "[uchr 0x1F600] \<noteq> [uchr 0xD83D, uchr 0xDE00]"
  by simp

section \<open>The header builder\<close>

text \<open>
  C4, as the program has it.  The header builder returns one header, named
  \<^verbatim>\<open>X-LlamaStack-Provider-Data\<close>, for every credential, with no check of the
  credential.  Its value is JSON text, and for every credential (a string, so its
  code points lie below \<^verbatim>\<open>0x110000\<close>) in which no high surrogate is immediately
  followed by a low surrogate, so for every well-formed Unicode string and for the
  empty string, the text reads back as an object with exactly two fields:
  \<^verbatim>\<open>passthrough_api_key\<close>, the credential itself, and \<^verbatim>\<open>passthrough_url\<close>, the fixed
  URL.
\<close>

theorem header_carries_credential:
  assumes "unicode_text c" and "pair_free c"
  shows "provider_data_header c =
           [(asc ''X-LlamaStack-Provider-Data'',
             json_dumps [(asc ''passthrough_api_key'', c),
                         (asc ''passthrough_url'', asc ''https://api.openai.com'')])]
       \<and> json_loads (json_dumps [(asc ''passthrough_api_key'', c),
                                  (asc ''passthrough_url'', asc ''https://api.openai.com'')]) =
           Inr (PDict [(asc ''passthrough_api_key'', PStr c),
                       (asc ''passthrough_url'', PStr (asc ''https://api.openai.com''))])"
  using provider_data_header_value [of c] header_round_trip [OF assms]
  by (rule conjI)

theorem header_carries_credential_witness:
  "unicode_text [] \<and> pair_free []
   \<and> json_loads (json_dumps [(asc ''passthrough_api_key'', []),
                              (asc ''passthrough_url'', asc ''https://api.openai.com'')]) =
       Inr (PDict [(asc ''passthrough_api_key'', PStr []),
                   (asc ''passthrough_url'', PStr (asc ''https://api.openai.com''))])
   \<and> unicode_text [Ch CHR ''s'', dquote, newline, uchr 0xE9, uchr 0x4E2D, uchr 0x1F600]
   \<and> pair_free [Ch CHR ''s'', dquote, newline, uchr 0xE9, uchr 0x4E2D, uchr 0x1F600]
   \<and> json_loads (json_dumps [(asc ''passthrough_api_key'',
                               [Ch CHR ''s'', dquote, newline, uchr 0xE9, uchr 0x4E2D, uchr 0x1F600]),
                              (asc ''passthrough_url'', asc ''https://api.openai.com'')]) =
       Inr (PDict [(asc ''passthrough_api_key'',
                    PStr [Ch CHR ''s'', dquote, newline, uchr 0xE9, uchr 0x4E2D, uchr 0x1F600]),
                   (asc ''passthrough_url'', PStr (asc ''https://api.openai.com''))])"
proof -
  have u0: "unicode_text []" by (simp add: unicode_text_def)
  have p0: "pair_free []" by simp
  note t0 = header_carries_credential [OF u0 p0, THEN conjunct2]
  note t1 = header_carries_credential [OF example_text, THEN conjunct2]
  show ?thesis
    by (rule conjI [OF u0 conjI [OF p0 conjI [OF t0
          conjI [OF example_text(1) conjI [OF example_text(2) t1]]]]])
qed

text \<open>
  C4 as stated does not hold of every string: \<^verbatim>\<open>json.dumps\<close> writes the two code
  points \<^verbatim>\<open>U+D83D\<close>, \<^verbatim>\<open>U+DE00\<close> as \<^verbatim>\<open>\ud83d\ude00\<close>, which is also how it writes the one
  code point \<^verbatim>\<open>U+1F600\<close>, and the JSON text reads back as that one code point.
\<close>

theorem header_surrogate_counterexample:
  "provider_data_header [uchr 0xD83D, uchr 0xDE00] =
     [(asc ''X-LlamaStack-Provider-Data'',
       json_dumps [(asc ''passthrough_api_key'', [uchr 0xD83D, uchr 0xDE00]),
                   (asc ''passthrough_url'', asc ''https://api.openai.com'')])]
   \<and> json_loads (json_dumps [(asc ''passthrough_api_key'', [uchr 0xD83D, uchr 0xDE00]),
                              (asc ''passthrough_url'', asc ''https://api.openai.com'')]) =
       Inr (PDict [(asc ''passthrough_api_key'', PStr [uchr 0x1F600]),
                   (asc ''passthrough_url'', PStr (asc ''https://api.openai.com''))])
   \<and> [uchr 0x1F600] \<noteq> [uchr 0xD83D, uchr 0xDE00]"
proof -
  have l: "json_loads (json_dumps [(asc ''passthrough_api_key'', [uchr 0xD83D, uchr 0xDE00]),
                              (asc ''passthrough_url'', asc ''https://api.openai.com'')]) =
       Inr (PDict [(asc ''passthrough_api_key'', PStr [uchr 0x1F600]),
                   (asc ''passthrough_url'', PStr (asc ''https://api.openai.com''))])"
    unfolding surrogates_dumps_like_pair by (rule header_round_trip [OF pair_text])
  show ?thesis
    by (rule conjI [OF provider_data_header_value conjI [OF l surrogates_differ]])
qed

end
